theory Spec2Isabelle
  imports Main
begin

section \<open>Security resolver: the scrip master table and its queries\<close>

text \<open>
  One row of the table \<open>scrip_master\<close> in \<open>data/scrip_master.db\<close>. The table is written by
  \<open>store_scrip_master_to_db\<close> with \<open>if_exists="replace"\<close>, so no column carries a declared
  collation or a key constraint. Only the columns read by the queries of
  \<open>get_scrip_code_by_name\<close> and \<open>get_scrip_name_by_code\<close> are kept; \<open>ExchType\<close>,
  \<open>Expiry\<close> and \<open>StrikeRate\<close> are stored but never read. Every row is taken to have a
  code and a name, as the rows of the master list do.
\<close>

record scrip =
  Exch :: string
  ScripCode :: int
  Name :: string
  FullName :: string

text \<open>
  SQLite folds only the 26 ASCII upper-case letters, both in the \<open>NOCASE\<close> collation and in
  the \<open>LIKE\<close> operator.
\<close>

definition lower_ascii :: "char \<Rightarrow> char" where
  "lower_ascii c =
     (let n = (of_char c :: nat) in if 65 \<le> n \<and> n \<le> 90 then char_of (n + 32) else c)"

definition nocase_eq :: "string \<Rightarrow> string \<Rightarrow> bool" where
  "nocase_eq a b = (map lower_ascii a = map lower_ascii b)"

text \<open>
  \<open>text LIKE pattern\<close> of SQLite with no escape character: \<open>%\<close> stands for any run of
  characters, \<open>_\<close> for any one character, every other character for itself up to ASCII case.
\<close>

fun sql_like :: "string \<Rightarrow> string \<Rightarrow> bool" where
  "sql_like [] s = (s = [])"
| "sql_like (p # ps) [] = (p = CHR ''%'' \<and> sql_like ps [])"
| "sql_like (p # ps) (c # cs) =
     (if p = CHR ''%'' then sql_like ps (c # cs) \<or> sql_like (p # ps) cs
      else (p = CHR ''_'' \<or> lower_ascii p = lower_ascii c) \<and> sql_like ps cs)"

text \<open>
  The \<open>WHERE\<close> clauses of \<open>get_scrip_code_by_name\<close>. \<open>COLLATE\<close> is a postfix operator that
  binds tighter than \<open>=\<close> and \<open>AND\<close>, so
  \<open>Name = ? AND Exch = 'N' COLLATE NOCASE\<close> is \<open>Name = ? AND Exch = ('N' COLLATE NOCASE)\<close>:
  the name is compared with the column's default \<open>BINARY\<close> collation and the exchange letter
  without regard to case.
\<close>

definition where_exact :: "string \<Rightarrow> string \<Rightarrow> scrip \<Rightarrow> bool" where
  "where_exact exch name r = (Name r = name \<and> nocase_eq (Exch r) exch)"

definition where_like :: "string \<Rightarrow> string \<Rightarrow> scrip \<Rightarrow> bool" where
  "where_like exch pattern r = (sql_like pattern (Name r) \<and> nocase_eq (Exch r) exch)"

text \<open>
  \<open>cursor.fetchone()\<close> after a \<open>SELECT\<close> without \<open>ORDER BY\<close>: the first row, in table
  order, that satisfies the \<open>WHERE\<close> clause, or \<open>None\<close>.
\<close>

definition select_exact :: "scrip list \<Rightarrow> string \<Rightarrow> string \<Rightarrow> scrip option" where
  "select_exact tbl exch name = find (where_exact exch name) tbl"

definition select_like :: "scrip list \<Rightarrow> string \<Rightarrow> string \<Rightarrow> scrip option" where
  "select_like tbl exch pattern = find (where_like exch pattern) tbl"

text \<open>
  Every \<open>raise\<close> of the downloader, named after its message, and the exceptions that the
  Python runtime raises on the modelled paths.
\<close>

datatype error =
    ArgumentsMissing
  | NotConnected
  | InvalidTimeFrame
  | InvalidExchange
  | InvalidExchangeSegment
  | NoMatchesFound string
  | ScripCodesIncomplete
  | ScripNameNotFound int
  | CouldNotFetch string
  | NoDataFound string
  | InvalidIntradayTimeFrame
  | TypeError
  | ValueError
  | OverflowError
  | AttributeError

text \<open>
  \<open>get_scrip_code_by_name\<close>. The four queries run in order, each only when the one before
  found nothing. When a partial search was made, the log line formats \<open>result[0]\<close> before the
  function returns; with \<open>result\<close> being \<open>None\<close> that subscript raises \<open>TypeError\<close>.
\<close>

definition get_scrip_code_by_name :: "scrip list \<Rightarrow> string \<Rightarrow> error + int option" where
  "get_scrip_code_by_name tbl name =
     (let result = select_exact tbl ''N'' name;
          result = (if result = None then select_exact tbl ''B'' name else result);
          searched_partially = False;
          (result, searched_partially) =
             (if result = None then (select_like tbl ''N'' (''%'' @ name @ ''%''), True)
              else (result, searched_partially));
          (result, searched_partially) =
             (if result = None then (select_like tbl ''B'' (''%'' @ name @ ''%''), True)
              else (result, searched_partially))
      in if searched_partially
         then (case result of None \<Rightarrow> Inl TypeError | Some r \<Rightarrow> Inr (Some (ScripCode r)))
         else Inr (map_option ScripCode result))"

text \<open>\<open>get_scrip_name_by_code\<close>: the first row with the code, as \<open>(Name, FullName, Exch)\<close>.\<close>

definition get_scrip_name_by_code :: "scrip list \<Rightarrow> int \<Rightarrow> (string \<times> string \<times> string) option" where
  "get_scrip_name_by_code tbl scrip_code =
     map_option (\<lambda>r. (Name r, FullName r, Exch r)) (find (\<lambda>r. ScripCode r = scrip_code) tbl)"

section \<open>Dates\<close>

text \<open>
  A \<open>datetime\<close> at midnight is represented by its proleptic Gregorian ordinal
  (\<open>toordinal()\<close>: 0001-01-01 is day 1), so that adding \<open>timedelta(days=k)\<close> is adding
  \<open>k\<close> and \<open><\<close> is the order of the integers. The conversion functions follow
  \<open>datetime.py\<close> of the Python standard library.
\<close>

type_synonym date = int

definition MAXORDINAL :: int where
  "MAXORDINAL = 3652059"

definition is_leap :: "int \<Rightarrow> bool" where
  "is_leap y = (y mod 4 = 0 \<and> (y mod 100 \<noteq> 0 \<or> y mod 400 = 0))"

definition days_before_year :: "int \<Rightarrow> int" where
  "days_before_year year = (let y = year - 1 in y * 365 + y div 4 - y div 100 + y div 400)"

definition days_in_month :: "int \<Rightarrow> int \<Rightarrow> int" where
  "days_in_month year month =
     (if month = 2 \<and> is_leap year then 29
      else [31, 28, 31, 30, 31, 30, 31, 31, 30, 31, 30, 31] ! nat (month - 1))"

definition days_before_month :: "int \<Rightarrow> int \<Rightarrow> int" where
  "days_before_month year month =
     [0, 31, 59, 90, 120, 151, 181, 212, 243, 273, 304, 334] ! nat (month - 1)
       + (if month > 2 \<and> is_leap year then 1 else 0)"

definition ymd2ord :: "int \<Rightarrow> int \<Rightarrow> int \<Rightarrow> date" where
  "ymd2ord year month day = days_before_year year + days_before_month year month + day"

definition ord2ymd :: "date \<Rightarrow> int \<times> int \<times> int" where
  "ord2ymd ordinal =
     (let n = ordinal - 1;
          n400 = n div 146097; n = n mod 146097;
          year = n400 * 400 + 1;
          n100 = n div 36524; n = n mod 36524;
          n4 = n div 1461; n = n mod 1461;
          n1 = n div 365; n = n mod 365;
          year = year + n100 * 100 + n4 * 4 + n1
      in if n1 = 4 \<or> n100 = 4 then (year - 1, 12, 31)
         else
           (let leapyear = (n1 = 3 \<and> (n4 \<noteq> 24 \<or> n100 = 3));
                month = (n + 50) div 32;
                preceding = [0, 31, 59, 90, 120, 151, 181, 212, 243, 273, 304, 334] ! nat (month - 1)
                              + (if month > 2 \<and> leapyear then 1 else 0)
            in if preceding > n
               then (let month = month - 1;
                         preceding = preceding
                           - ([31, 28, 31, 30, 31, 30, 31, 31, 30, 31, 30, 31] ! nat (month - 1)
                              + (if month = 2 \<and> leapyear then 1 else 0))
                     in (year, month, n - preceding + 1))
               else (year, month, n - preceding + 1)))"

subsection \<open>Parsing and printing\<close>

definition digit_val :: "char \<Rightarrow> int option" where
  "digit_val c =
     (let n = (of_char c :: nat) in if 48 \<le> n \<and> n \<le> 57 then Some (int n - 48) else None)"

definition digit_char :: "int \<Rightarrow> char" where
  "digit_char d = char_of (nat d + 48)"

fun split_on :: "(char \<Rightarrow> bool) \<Rightarrow> string \<Rightarrow> string list" where
  "split_on sep [] = [[]]"
| "split_on sep (c # cs) =
     (if sep c then [] # split_on sep cs
      else (case split_on sep cs of t # ts \<Rightarrow> (c # t) # ts | [] \<Rightarrow> [[c]]))"

text \<open>
  The directive \<open>%Y\<close> is four digits. \<open>%m\<close>, \<open>%d\<close>, \<open>%H\<close>, \<open>%M\<close> and \<open>%S\<close> are two digits
  or one; a one-digit month or day is not \<open>0\<close>, and \<open>%d\<close> also takes a blank before one
  digit. \<open>field lo hi t\<close> reads such a token with value between \<open>lo\<close> and \<open>hi\<close>.
\<close>

fun year_field :: "string \<Rightarrow> int option" where
  "year_field [a, b, c, d] =
     (case (digit_val a, digit_val b, digit_val c, digit_val d) of
        (Some a, Some b, Some c, Some d) \<Rightarrow> Some (a * 1000 + b * 100 + c * 10 + d)
      | _ \<Rightarrow> None)"
| "year_field _ = None"

fun field :: "int \<Rightarrow> int \<Rightarrow> string \<Rightarrow> int option" where
  "field lo hi [a] = (case digit_val a of Some a \<Rightarrow> if lo \<le> a then Some a else None | None \<Rightarrow> None)"
| "field lo hi [a, b] =
     (case (digit_val a, digit_val b) of
        (Some a, Some b) \<Rightarrow> if lo \<le> a * 10 + b \<and> a * 10 + b \<le> hi then Some (a * 10 + b) else None
      | _ \<Rightarrow> None)"
| "field lo hi _ = None"

definition day_field :: "string \<Rightarrow> int option" where
  "day_field t = (case t of [a, b] \<Rightarrow> if a = CHR '' '' then field 1 9 [b] else field 1 31 t | _ \<Rightarrow> field 1 31 t)"

text \<open>
  \<open>datetime.strptime(s, "%Y-%m-%d")\<close> on ASCII input, as an ordinal; \<open>None\<close> stands for
  \<open>ValueError\<close> (no match, unconverted data, year 0, or a day the month does not have).
\<close>

definition ymd_fields :: "string list \<Rightarrow> date option" where
  "ymd_fields ts =
     (case ts of
        [y, m, d] \<Rightarrow>
          (case (year_field y, field 1 12 m, day_field d) of
             (Some year, Some month, Some day) \<Rightarrow>
               if 1 \<le> year \<and> day \<le> days_in_month year month then Some (ymd2ord year month day)
               else None
           | _ \<Rightarrow> None)
      | _ \<Rightarrow> None)"

definition strptime_ymd :: "string \<Rightarrow> date option" where
  "strptime_ymd s = ymd_fields (split_on (\<lambda>c. c = CHR ''-'') s)"

text \<open>
  \<open>datetime.strptime(s, "%Y-%m-%dT%H:%M:%S").date()\<close>. The format is matched without
  regard to case, so the separator may be \<open>t\<close>; the constructor refuses a second above 59.
\<close>

definition strptime_timestamp_date :: "string \<Rightarrow> date option" where
  "strptime_timestamp_date s =
     (case split_on (\<lambda>c. c = CHR ''T'' \<or> c = CHR ''t'') s of
        [d, t] \<Rightarrow>
          (case split_on (\<lambda>c. c = CHR '':'') t of
             [hh, mm, ss] \<Rightarrow>
               (case (field 0 23 hh, field 0 59 mm, field 0 59 ss) of
                  (Some _, Some _, Some _) \<Rightarrow> strptime_ymd d
                | _ \<Rightarrow> None)
           | _ \<Rightarrow> None)
      | _ \<Rightarrow> None)"

definition two_digits :: "int \<Rightarrow> string" where
  "two_digits n = [digit_char (n div 10), digit_char (n mod 10)]"

definition four_digits :: "int \<Rightarrow> string" where
  "four_digits n =
     [digit_char (n div 1000), digit_char (n div 100 mod 10), digit_char (n div 10 mod 10),
      digit_char (n mod 10)]"

text \<open>
  \<open>d.strftime("%Y-%m-%d")\<close> with the C library's \<open>%Y\<close>, which does not pad a year below
  1000, and \<open>str\<close> of a \<open>date\<close>, which always writes four digits.
\<close>

definition strftime_ymd :: "date \<Rightarrow> string" where
  "strftime_ymd d =
     (case ord2ymd d of (year, month, day) \<Rightarrow>
        dropWhile (\<lambda>c. c = CHR ''0'') (four_digits year) @ ''-'' @ two_digits month @ ''-'' @ two_digits day)"

definition isoformat :: "date \<Rightarrow> string" where
  "isoformat d =
     (case ord2ymd d of (year, month, day) \<Rightarrow>
        four_digits year @ ''-'' @ two_digits month @ ''-'' @ two_digits day)"

section \<open>The downloader's world\<close>

text \<open>
  A data frame is the list of its rows; \<open>data_frame.empty\<close> is the empty list and
  \<open>pd.concat\<close> is concatenation. Of a row, the program reads and rewrites the \<open>Datetime\<close>
  column only.
\<close>

record row =
  Datetime :: string
  Cells :: "string list"

type_synonym data_frame = "row list"

text \<open>
  One call \<open>client.historical_data(exchange, exchange_segment, scrip_code, time_period, from, to)\<close>.
  The answer is \<open>None\<close> or a data frame, and may depend on the calls made before.
\<close>

datatype hist_call = HistoricalData string string int string string string

type_synonym fetch_log = "(hist_call \<times> data_frame option) list"

type_synonym api = "fetch_log \<Rightarrow> hist_call \<Rightarrow> data_frame option"

datatype store_call = CodeByName string | NameByCode int

text \<open>
  \<open>client\<close> is \<open>self.client\<close> (\<open>None\<close> before \<open>connect\<close>), \<open>scrip_master\<close> the table in
  the database, \<open>files\<close> the CSV artifacts on disk by path. \<open>fetch_log\<close> and \<open>store_log\<close>
  record, oldest first, the calls made to the market-data API and to the lookup store.
\<close>

record world =
  client :: "api option"
  scrip_master :: "scrip list"
  files :: "string \<rightharpoonup> data_frame"
  fetch_log :: fetch_log
  store_log :: "store_call list"

definition historical_data :: "hist_call \<Rightarrow> world \<Rightarrow> (error + data_frame option) \<times> world" where
  "historical_data c w =
     (case client w of
        None \<Rightarrow> (Inl AttributeError, w)
      | Some api \<Rightarrow>
          (let r = api (fetch_log w) c
           in (Inr r, w\<lparr>fetch_log := fetch_log w @ [(c, r)]\<rparr>)))"

definition path_exists :: "string \<Rightarrow> world \<Rightarrow> bool" where
  "path_exists file_name w = (files w file_name \<noteq> None)"

definition save_to_csv :: "data_frame \<Rightarrow> string \<Rightarrow> world \<Rightarrow> world" where
  "save_to_csv df filename w = w\<lparr>files := (files w)(filename \<mapsto> df)\<rparr>"

section \<open>Validation\<close>

definition time_list :: "string list" where
  "time_list = [''1m'', ''5m'', ''10m'', ''15m'', ''30m'', ''60m'', ''1d'']"

definition exchange_map :: "(string \<times> string) list" where
  "exchange_map = [(''N'', ''NSE''), (''B'', ''BSE''), (''M'', ''MCX''), (''n'', ''NCDEX'')]"

definition exchange_segment_map :: "(string \<times> string) list" where
  "exchange_segment_map =
     [(''c'', ''Cash''), (''d'', ''Derivatives''), (''u'', ''Currency_Derivatives''),
      (''x'', ''NCDEX_Commodity''), (''y'', ''NSE_BSE_Commodity'')]"

text \<open>\<open>d.get(k, k)\<close> on one of the two dictionaries.\<close>

definition get_or_key :: "(string \<times> string) list \<Rightarrow> string \<Rightarrow> string" where
  "get_or_key d k = (case map_of d k of Some v \<Rightarrow> v | None \<Rightarrow> k)"

definition validate_exchange_segment_and_time :: "string \<Rightarrow> string \<Rightarrow> string \<Rightarrow> error + unit" where
  "validate_exchange_segment_and_time time_period exchange exchange_segment =
     (if time_period \<notin> set time_list then Inl InvalidTimeFrame
      else if map_of exchange_map exchange = None then Inl InvalidExchange
      else if map_of exchange_segment_map exchange_segment = None then Inl InvalidExchangeSegment
      else Inr ())"

text \<open>The checks that open \<open>get_historical_data\<close>, in the order of the source.\<close>

definition check_arguments ::
  "string \<Rightarrow> string \<Rightarrow> string list \<Rightarrow> string \<Rightarrow> string \<Rightarrow> string \<Rightarrow> world \<Rightarrow> error + unit" where
  "check_arguments exchange exchange_segment scrip_names time_period from_date to_date w =
     (if exchange = [] \<or> exchange_segment = [] \<or> length scrip_names = 0 \<or> time_period = []
         \<or> from_date = [] \<or> to_date = []
      then Inl ArgumentsMissing
      else if client w = None then Inl NotConnected
      else validate_exchange_segment_and_time time_period exchange exchange_segment)"

section \<open>Resolution of the requested names\<close>

text \<open>The first loop of \<open>get_historical_data\<close>: names to codes, stopping at the first failure.\<close>

fun fetch_scrip_codes :: "string list \<Rightarrow> int list \<Rightarrow> world \<Rightarrow> (error + int list) \<times> world" where
  "fetch_scrip_codes [] fetched_scrip_codes w = (Inr fetched_scrip_codes, w)"
| "fetch_scrip_codes (scrip_name # rest) fetched_scrip_codes w =
     (let w1 = w\<lparr>store_log := store_log w @ [CodeByName scrip_name]\<rparr>
      in case get_scrip_code_by_name (scrip_master w) scrip_name of
           Inl e \<Rightarrow> (Inl e, w1)
         | Inr None \<Rightarrow> (Inl (NoMatchesFound scrip_name), w1)
         | Inr (Some fetched_scrip_code) \<Rightarrow>
             fetch_scrip_codes rest (fetched_scrip_codes @ [fetched_scrip_code]) w1)"

text \<open>The second loop: codes back to the names the table has for them.\<close>

fun correct_scrip_names :: "int list \<Rightarrow> string list \<Rightarrow> world \<Rightarrow> (error + string list) \<times> world" where
  "correct_scrip_names [] scrip_names_corrected w = (Inr scrip_names_corrected, w)"
| "correct_scrip_names (fetched_scrip_code # rest) scrip_names_corrected w =
     (let w1 = w\<lparr>store_log := store_log w @ [NameByCode fetched_scrip_code]\<rparr>
      in case get_scrip_name_by_code (scrip_master w) fetched_scrip_code of
           None \<Rightarrow> (Inl (ScripNameNotFound fetched_scrip_code), w1)
         | Some fetched_scrip_name \<Rightarrow>
             correct_scrip_names rest (scrip_names_corrected @ [fst fetched_scrip_name]) w1)"

text \<open>
  \<open>dict(zip(keys, values))\<close>: a key seen again keeps its place and takes the new value. The
  loops over the dictionary visit the items in this order.
\<close>

fun dict_set :: "'k \<Rightarrow> 'v \<Rightarrow> ('k \<times> 'v) list \<Rightarrow> ('k \<times> 'v) list" where
  "dict_set k v [] = [(k, v)]"
| "dict_set k v (p # ps) = (if fst p = k then (k, v) # ps else p # dict_set k v ps)"

definition dict_zip :: "'k list \<Rightarrow> 'v list \<Rightarrow> ('k \<times> 'v) list" where
  "dict_zip ks vs = foldl (\<lambda>d (k, v). dict_set k v d) [] (zip ks vs)"

definition resolve_scrips :: "string list \<Rightarrow> world \<Rightarrow> (error + (int \<times> string) list) \<times> world" where
  "resolve_scrips scrip_names w =
     (case fetch_scrip_codes scrip_names [] w of
        (Inl e, w1) \<Rightarrow> (Inl e, w1)
      | (Inr fetched_scrip_codes, w1) \<Rightarrow>
          if length fetched_scrip_codes \<noteq> length scrip_names then (Inl ScripCodesIncomplete, w1)
          else
            (case correct_scrip_names fetched_scrip_codes [] w1 of
               (Inl e, w2) \<Rightarrow> (Inl e, w2)
             | (Inr scrip_names_corrected, w2) \<Rightarrow>
                 (Inr (dict_zip fetched_scrip_codes scrip_names_corrected), w2)))"

section \<open>Range fetch orchestrator\<close>

text \<open>The path of the artifact of one security and one request.\<close>

definition artifact_path :: "string \<Rightarrow> string \<Rightarrow> string \<Rightarrow> string \<Rightarrow> string \<Rightarrow> string \<Rightarrow> string" where
  "artifact_path scrip_name exchange_name exchange_segment_name time_period from_date to_date =
     ''data/'' @ scrip_name @ ''/'' @ scrip_name @ ''_'' @ exchange_name @ ''_''
       @ exchange_segment_name @ ''_'' @ time_period @ ''_'' @ from_date @ ''_to_'' @ to_date
       @ ''.csv''"

definition file_name_of :: "string \<Rightarrow> string \<Rightarrow> string \<Rightarrow> string \<Rightarrow> string \<Rightarrow> string \<Rightarrow> string" where
  "file_name_of exchange exchange_segment time_period from_date to_date scrip_name =
     artifact_path scrip_name (get_or_key exchange_map exchange)
       (get_or_key exchange_segment_map exchange_segment) time_period from_date to_date"

subsection \<open>Daily path\<close>

text \<open>
  The daily path replaces every \<open>Datetime\<close> by its date; a value that does not parse raises
  \<open>ValueError\<close>.
\<close>

fun normalise_datetime :: "data_frame \<Rightarrow> error + data_frame" where
  "normalise_datetime [] = Inr []"
| "normalise_datetime (r # rs) =
     (case strptime_timestamp_date (Datetime r) of
        None \<Rightarrow> Inl ValueError
      | Some d \<Rightarrow>
          (case normalise_datetime rs of
             Inl e \<Rightarrow> Inl e
           | Inr rs' \<Rightarrow> Inr (r\<lparr>Datetime := isoformat d\<rparr> # rs')))"

text \<open>The body of the daily loop for one security; \<open>Inr ()\<close> lets the loop go on.\<close>

definition daily_security ::
  "string \<Rightarrow> string \<Rightarrow> string \<Rightarrow> string \<Rightarrow> string \<Rightarrow> int \<Rightarrow> string \<Rightarrow> world \<Rightarrow> (error + unit) \<times> world" where
  "daily_security exchange exchange_segment time_period from_date to_date scrip_code scrip_name w =
     (let file_name = file_name_of exchange exchange_segment time_period from_date to_date scrip_name
      in if path_exists file_name w then (Inr (), w)
         else
           (case historical_data
                   (HistoricalData exchange exchange_segment scrip_code time_period from_date to_date) w of
              (Inl e, w1) \<Rightarrow> (Inl e, w1)
            | (Inr None, w1) \<Rightarrow> (Inl (CouldNotFetch scrip_name), w1)
            | (Inr (Some data_frame), w1) \<Rightarrow>
                if data_frame = [] then (Inr (), w1)
                else
                  (case normalise_datetime data_frame of
                     Inl e \<Rightarrow> (Inl e, w1)
                   | Inr data_frame' \<Rightarrow> (Inr (), save_to_csv data_frame' file_name w1))))"

fun daily_loop ::
  "string \<Rightarrow> string \<Rightarrow> string \<Rightarrow> string \<Rightarrow> string \<Rightarrow> (int \<times> string) list \<Rightarrow> world \<Rightarrow> (error + unit) \<times> world" where
  "daily_loop exchange exchange_segment time_period from_date to_date [] w = (Inr (), w)"
| "daily_loop exchange exchange_segment time_period from_date to_date ((scrip_code, scrip_name) # rest) w =
     (case daily_security exchange exchange_segment time_period from_date to_date scrip_code scrip_name w of
        (Inl e, w1) \<Rightarrow> (Inl e, w1)
      | (Inr _, w1) \<Rightarrow> daily_loop exchange exchange_segment time_period from_date to_date rest w1)"

subsection \<open>Intraday path\<close>

text \<open>\<open>d + timedelta(days=k)\<close>: \<open>OverflowError\<close> outside 0001-01-01 .. 9999-12-31.\<close>

definition add_days :: "date \<Rightarrow> int \<Rightarrow> error + date" where
  "add_days d k = (if d + k < 1 \<or> MAXORDINAL < d + k then Inl OverflowError else Inr (d + k))"

text \<open>
  The \<open>while\<close> loop of \<open>get_historical_intraday_data\<close>: \<open>current_date\<close> is the cursor,
  \<open>data_frames\<close> the non-empty results so far.
\<close>

function chunk_loop ::
  "string \<Rightarrow> string \<Rightarrow> int \<Rightarrow> string \<Rightarrow> string \<Rightarrow> date \<Rightarrow> date \<Rightarrow> data_frame list \<Rightarrow> world
     \<Rightarrow> (error + data_frame list) \<times> world" where
  "chunk_loop exchange exchange_segment scrip_code time_period scrip_name current_date end_date
       data_frames w =
     (if current_date < end_date then
        (case add_days current_date 180 of
           Inl e \<Rightarrow> (Inl e, w)
         | Inr d \<Rightarrow>
             (let current_end_date = min end_date d
              in case historical_data
                        (HistoricalData exchange exchange_segment scrip_code time_period
                           (strftime_ymd current_date) (strftime_ymd current_end_date)) w of
                   (Inl e, w1) \<Rightarrow> (Inl e, w1)
                 | (Inr None, w1) \<Rightarrow> (Inl (CouldNotFetch scrip_name), w1)
                 | (Inr (Some data_frame), w1) \<Rightarrow>
                     (case add_days current_end_date 1 of
                        Inl e \<Rightarrow> (Inl e, w1)
                      | Inr next_date \<Rightarrow>
                          if data_frame = []
                          then chunk_loop exchange exchange_segment scrip_code time_period scrip_name
                                 next_date end_date data_frames w1
                          else chunk_loop exchange exchange_segment scrip_code time_period scrip_name
                                 next_date end_date (data_frames @ [data_frame]) w1)))
      else (Inr data_frames, w))"
  by pat_completeness auto
termination
  by (relation "measure (\<lambda>(exchange, exchange_segment, scrip_code, time_period, scrip_name,
                            current_date, end_date, data_frames, w). nat (end_date - current_date))")
     (auto simp: add_days_def split: if_splits)

text \<open>The body of the intraday loop for one security.\<close>

definition intraday_security ::
  "string \<Rightarrow> string \<Rightarrow> string \<Rightarrow> string \<Rightarrow> string \<Rightarrow> int \<Rightarrow> string \<Rightarrow> world \<Rightarrow> (error + unit) \<times> world" where
  "intraday_security exchange exchange_segment time_period from_date to_date scrip_code scrip_name w =
     (let file_name = file_name_of exchange exchange_segment time_period from_date to_date scrip_name
      in if path_exists file_name w then (Inr (), w)
         else
           (case strptime_ymd from_date of
              None \<Rightarrow> (Inl ValueError, w)
            | Some start_date \<Rightarrow>
                (case strptime_ymd to_date of
                   None \<Rightarrow> (Inl ValueError, w)
                 | Some end_date \<Rightarrow>
                     (case chunk_loop exchange exchange_segment scrip_code time_period scrip_name
                             start_date end_date [] w of
                        (Inl e, w1) \<Rightarrow> (Inl e, w1)
                      | (Inr data_frames, w1) \<Rightarrow>
                          if length data_frames = 0 then (Inl (NoDataFound scrip_name), w1)
                          else (Inr (), save_to_csv (concat data_frames) file_name w1)))))"

fun intraday_loop ::
  "string \<Rightarrow> string \<Rightarrow> string \<Rightarrow> string \<Rightarrow> string \<Rightarrow> (int \<times> string) list \<Rightarrow> world \<Rightarrow> (error + unit) \<times> world" where
  "intraday_loop exchange exchange_segment time_period from_date to_date [] w = (Inr (), w)"
| "intraday_loop exchange exchange_segment time_period from_date to_date ((scrip_code, scrip_name) # rest) w =
     (case intraday_security exchange exchange_segment time_period from_date to_date scrip_code scrip_name w of
        (Inl e, w1) \<Rightarrow> (Inl e, w1)
      | (Inr _, w1) \<Rightarrow> intraday_loop exchange exchange_segment time_period from_date to_date rest w1)"

definition get_historical_intraday_data ::
  "string \<Rightarrow> string \<Rightarrow> (int \<times> string) list \<Rightarrow> string \<Rightarrow> string \<Rightarrow> string \<Rightarrow> world \<Rightarrow> (error + unit) \<times> world" where
  "get_historical_intraday_data exchange exchange_segment scrip_codes_map time_period from_date to_date w =
     (if time_period \<notin> set [''1m'', ''5m'', ''10m'', ''15m'', ''30m'', ''60m'']
      then (Inl InvalidIntradayTimeFrame, w)
      else intraday_loop exchange exchange_segment time_period from_date to_date scrip_codes_map w)"

subsection \<open>The entry point\<close>

definition get_historical_data ::
  "string \<Rightarrow> string \<Rightarrow> string list \<Rightarrow> string \<Rightarrow> string \<Rightarrow> string \<Rightarrow> world \<Rightarrow> (error + unit) \<times> world" where
  "get_historical_data exchange exchange_segment scrip_names time_period from_date to_date w =
     (case check_arguments exchange exchange_segment scrip_names time_period from_date to_date w of
        Inl e \<Rightarrow> (Inl e, w)
      | Inr _ \<Rightarrow>
          (case resolve_scrips scrip_names w of
             (Inl e, w1) \<Rightarrow> (Inl e, w1)
           | (Inr scrip_codes_map, w1) \<Rightarrow>
               if time_period = ''1d''
               then daily_loop exchange exchange_segment time_period from_date to_date scrip_codes_map w1
               else get_historical_intraday_data exchange exchange_segment scrip_codes_map time_period
                      from_date to_date w1))"

section \<open>Notions used in the statements\<close>

text \<open>None of the four queries of \<open>get_scrip_code_by_name\<close> finds a row for the name.\<close>

definition no_tier_matches :: "scrip list \<Rightarrow> string \<Rightarrow> bool" where
  "no_tier_matches tbl name =
     (select_exact tbl ''N'' name = None \<and> select_exact tbl ''B'' name = None
      \<and> select_like tbl ''N'' (''%'' @ name @ ''%'') = None
      \<and> select_like tbl ''B'' (''%'' @ name @ ''%'') = None)"

text \<open>The calls made between two worlds, and the non-empty data frames among their answers.\<close>

definition new_calls :: "world \<Rightarrow> world \<Rightarrow> fetch_log" where
  "new_calls w w1 = drop (length (fetch_log w)) (fetch_log w1)"

definition non_empty_frames :: "fetch_log \<Rightarrow> data_frame list" where
  "non_empty_frames lg = filter (\<lambda>d. d \<noteq> []) (List.map_filter snd lg)"

definition unavailable :: "fetch_log \<Rightarrow> bool" where
  "unavailable lg = (None \<in> snd ` set lg)"

text \<open>
  The bounds of the calls of the chunk loop when no call fails: the cursor and the end of its
  chunk, as day numbers, in the order of the calls; and the call made for such a pair.
\<close>

function chunk_bounds :: "date \<Rightarrow> date \<Rightarrow> (date \<times> date) list" where
  "chunk_bounds current_date end_date =
     (if current_date < end_date
      then (current_date, min end_date (current_date + 180))
             # chunk_bounds (min end_date (current_date + 180) + 1) end_date
      else [])"
  by pat_completeness auto
termination
  by (relation "measure (\<lambda>(current_date, end_date). nat (end_date - current_date))") auto

declare chunk_bounds.simps [simp del]

definition chunk_call :: "string \<Rightarrow> string \<Rightarrow> int \<Rightarrow> string \<Rightarrow> date \<times> date \<Rightarrow> hist_call" where
  "chunk_call exchange exchange_segment scrip_code time_period b =
     HistoricalData exchange exchange_segment scrip_code time_period
       (strftime_ymd (fst b)) (strftime_ymd (snd b))"

text \<open>The ways in which the chunk loop can end with an exception.\<close>

definition chunk_error :: "string \<Rightarrow> date \<Rightarrow> date \<Rightarrow> world \<Rightarrow> fetch_log \<Rightarrow> error \<Rightarrow> bool" where
  "chunk_error scrip_name current_date end_date w new e =
     (e = AttributeError \<and> client w = None
      \<or> e = OverflowError \<and> (current_date < 1 \<or> MAXORDINAL < end_date + 180)
      \<or> e = CouldNotFetch scrip_name \<and> unavailable new)"

text \<open>
  The request as the specification words it: the granularity is one of seven values, the
  exchange one of four, the segment one of five, and no list or string argument is empty.
  \<open>invalid_request_error\<close> collects the exceptions raised for a malformed request.
\<close>

definition valid_request ::
  "string \<Rightarrow> string \<Rightarrow> string list \<Rightarrow> string \<Rightarrow> string \<Rightarrow> string \<Rightarrow> bool" where
  "valid_request exchange exchange_segment scrip_names time_period from_date to_date =
     (time_period \<in> set [''1m'', ''5m'', ''10m'', ''15m'', ''30m'', ''60m'', ''1d'']
      \<and> exchange \<in> set [''N'', ''B'', ''M'', ''n'']
      \<and> exchange_segment \<in> set [''c'', ''d'', ''u'', ''x'', ''y'']
      \<and> scrip_names \<noteq> [] \<and> from_date \<noteq> [] \<and> to_date \<noteq> [])"

fun invalid_request_error :: "error \<Rightarrow> bool" where
  "invalid_request_error ArgumentsMissing = True"
| "invalid_request_error InvalidTimeFrame = True"
| "invalid_request_error InvalidExchange = True"
| "invalid_request_error InvalidExchangeSegment = True"
| "invalid_request_error InvalidIntradayTimeFrame = True"
| "invalid_request_error _ = False"

fun is_invalid_request :: "error + unit \<Rightarrow> bool" where
  "is_invalid_request (Inl e) = invalid_request_error e"
| "is_invalid_request (Inr _) = False"

subsection \<open>Example inputs\<close>

definition gold_table :: "scrip list" where
  "gold_table =
     [\<lparr>Exch = ''n'', ScripCode = 10, Name = ''GOLD'', FullName = ''GOLD NCDEX''\<rparr>,
      \<lparr>Exch = ''B'', ScripCode = 20, Name = ''GOLD'', FullName = ''GOLD BSE''\<rparr>,
      \<lparr>Exch = ''N'', ScripCode = 30, Name = ''GOLDBEES'', FullName = ''GOLD BEES ETF''\<rparr>]"

definition one_row_api :: api where
  "one_row_api lg c = Some [\<lparr>Datetime = ''2020-01-01T09:15:00'', Cells = [''100.5'']\<rparr>]"

definition empty_api :: api where
  "empty_api lg c = Some []"

definition failing_api :: api where
  "failing_api lg c = None"

definition example_world :: world where
  "example_world =
     \<lparr>client = Some one_row_api, scrip_master = gold_table, files = Map.empty, fetch_log = [],
      store_log = []\<rparr>"

definition quiet_world :: world where
  "quiet_world = example_world\<lparr>client := Some empty_api\<rparr>"

definition broken_world :: world where
  "broken_world = example_world\<lparr>client := Some failing_api\<rparr>"

section \<open>Resolution: what the queries return\<close>

lemma get_scrip_code_by_name_no_match:
  "no_tier_matches tbl name \<Longrightarrow> get_scrip_code_by_name tbl name = Inl TypeError"
  by (simp add: no_tier_matches_def get_scrip_code_by_name_def)

lemma get_scrip_code_by_name_never_None:
  "get_scrip_code_by_name tbl name \<noteq> Inr None"
  by (auto simp: get_scrip_code_by_name_def Let_def split: option.splits if_splits)

lemma get_scrip_code_by_name_error:
  "get_scrip_code_by_name tbl name = Inl e \<Longrightarrow> e = TypeError"
  by (auto simp: get_scrip_code_by_name_def Let_def split: option.splits if_splits)

text \<open>
  C2. The lookup is claimed to try the exact name on NSE, then the exact name on BSE, then the
  partial name on NSE, then on BSE, so that a name with an exact BSE row and only a partial
  NSE row resolves to the BSE row. In \<open>gold_table\<close> the name \<open>GOLD\<close> has the exact BSE row
  20 and the partial NSE row 30 and no exact NSE row, yet the first query answers with row 10
  of exchange \<open>n\<close> (NCDEX), because the exchange letter is compared without regard to case.
\<close>

theorem tier_order_failing_input:
  "get_scrip_code_by_name gold_table ''GOLD'' = Inr (Some 10)
   \<and> map_option Exch (find (\<lambda>r. ScripCode r = 10) gold_table) = Some ''n''
   \<and> map_option ScripCode (find (\<lambda>r. Name r = ''GOLD'' \<and> Exch r = ''B'') gold_table) = Some 20
   \<and> find (\<lambda>r. Name r = ''GOLD'' \<and> Exch r = ''N'') gold_table = None"
  by code_simp

text \<open>
  C3. The first query is claimed to return a row only when its name equals the queried name
  up to case and its exchange is \<open>N\<close>. For \<open>GOLD\<close> it returns a row of exchange \<open>n\<close>; and
  for \<open>goldbees\<close> it returns nothing although the NSE row \<open>GOLDBEES\<close> equals it up to case.
\<close>

theorem exact_tier_failing_input:
  "map_option Exch (select_exact gold_table ''N'' ''GOLD'') = Some ''n''
   \<and> select_exact gold_table ''N'' ''goldbees'' = None
   \<and> map_option Name (find (\<lambda>r. nocase_eq (Name r) ''goldbees'' \<and> Exch r = ''N'') gold_table)
       = Some ''GOLDBEES''"
  by code_simp

text \<open>
  C4. A name that no query matches is claimed to make \<open>get_scrip_code_by_name\<close> return
  \<open>None\<close>, and the caller raise "No matches found". For \<open>SILVER\<close> the function raises
  \<open>TypeError\<close> instead, and so does \<open>get_historical_data\<close>.
\<close>

theorem no_match_failing_input:
  "no_tier_matches gold_table ''SILVER''
   \<and> get_scrip_code_by_name gold_table ''SILVER'' = Inl TypeError
   \<and> fst (get_historical_data ''N'' ''c'' [''SILVER''] ''1d'' ''2024-01-01'' ''2024-01-05''
            example_world) = Inl TypeError"
  by code_simp

section \<open>Resolution inside a request\<close>

lemma fetch_scrip_codes_frame:
  "fetch_scrip_codes names acc w = (r, w1) \<Longrightarrow>
     files w1 = files w \<and> fetch_log w1 = fetch_log w \<and> client w1 = client w
     \<and> scrip_master w1 = scrip_master w"
proof (induction names arbitrary: acc w)
  case Nil
  then show ?case by simp
next
  case (Cons n ns)
  then show ?case
    by (fastforce simp: Let_def split: sum.splits option.splits)
qed

lemma fetch_scrip_codes_no_match:
  "n \<in> set names \<Longrightarrow> no_tier_matches (scrip_master w) n \<Longrightarrow>
     \<exists>e. fst (fetch_scrip_codes names acc w) = Inl e"
proof (induction names arbitrary: acc w)
  case Nil
  then show ?case by simp
next
  case (Cons a ns)
  show ?case
  proof (cases "get_scrip_code_by_name (scrip_master w) a")
    case (Inl e)
    then show ?thesis by (simp add: Let_def)
  next
    case (Inr r)
    show ?thesis
    proof (cases r)
      case None
      with Inr show ?thesis by (simp add: Let_def)
    next
      case (Some c)
      have "a \<noteq> n"
        using Cons.prems(2) Inr get_scrip_code_by_name_no_match by fastforce
      then have "n \<in> set ns"
        using Cons.prems(1) by simp
      moreover have "no_tier_matches (scrip_master (w\<lparr>store_log := store_log w @ [CodeByName a]\<rparr>)) n"
        using Cons.prems(2) by simp
      ultimately show ?thesis
        using Cons.IH Inr Some by (simp add: Let_def)
    qed
  qed
qed

lemma correct_scrip_names_frame:
  "correct_scrip_names codes acc w = (r, w1) \<Longrightarrow>
     files w1 = files w \<and> fetch_log w1 = fetch_log w \<and> client w1 = client w
     \<and> scrip_master w1 = scrip_master w"
proof (induction codes arbitrary: acc w)
  case Nil
  then show ?case by simp
next
  case (Cons n ns)
  then show ?case
    by (fastforce simp: Let_def split: option.splits)
qed

lemma resolve_scrips_frame:
  assumes "resolve_scrips names w = (r, w1)"
  shows "files w1 = files w \<and> fetch_log w1 = fetch_log w \<and> client w1 = client w
     \<and> scrip_master w1 = scrip_master w"
proof (cases "fetch_scrip_codes names [] w")
  case (Pair a wa)
  note f1 = fetch_scrip_codes_frame[OF Pair]
  show ?thesis
  proof (cases a)
    case (Inl e)
    with Pair assms f1 show ?thesis by (simp add: resolve_scrips_def)
  next
    case (Inr codes)
    show ?thesis
    proof (cases "correct_scrip_names codes [] wa")
      case (Pair b wb)
      note f2 = correct_scrip_names_frame[OF Pair]
      from assms \<open>fetch_scrip_codes names [] w = (a, wa)\<close> Inr Pair f1 f2 show ?thesis
        by (auto simp: resolve_scrips_def split: if_splits sum.splits)
    qed
  qed
qed

lemma resolve_scrips_no_match:
  assumes "n \<in> set names" "no_tier_matches (scrip_master w) n"
  shows "\<exists>e. fst (resolve_scrips names w) = Inl e"
proof -
  obtain e where "fst (fetch_scrip_codes names [] w) = Inl e"
    using fetch_scrip_codes_no_match[OF assms] by blast
  then show ?thesis
    by (cases "fetch_scrip_codes names [] w") (simp add: resolve_scrips_def)
qed

text \<open>
  C9. When some requested name matches no query, the request ends with an exception and
  leaves the artifacts as they were: nothing is written and nothing is fetched, for the
  securities after the failing name as for those before it.
\<close>

theorem unresolved_name_aborts_batch:
  assumes "n \<in> set scrip_names" and "no_tier_matches (scrip_master w) n"
  shows "(\<exists>e. fst (get_historical_data exchange exchange_segment scrip_names time_period
                    from_date to_date w) = Inl e)
    \<and> files (snd (get_historical_data exchange exchange_segment scrip_names time_period
                    from_date to_date w)) = files w
    \<and> fetch_log (snd (get_historical_data exchange exchange_segment scrip_names time_period
                    from_date to_date w)) = fetch_log w"
proof (cases "check_arguments exchange exchange_segment scrip_names time_period from_date to_date w")
  case (Inl e)
  then show ?thesis by (simp add: get_historical_data_def)
next
  case (Inr u)
  obtain r w1 where rw: "resolve_scrips scrip_names w = (r, w1)"
    by (cases "resolve_scrips scrip_names w")
  obtain e where "r = Inl e"
    using resolve_scrips_no_match[OF assms] rw by auto
  with Inr rw resolve_scrips_frame[OF rw] show ?thesis
    by (simp add: get_historical_data_def)
qed

theorem unresolved_name_aborts_batch_witness:
  "(\<exists>e. fst (get_historical_data ''N'' ''c'' [''GOLDBEES'', ''SILVER'', ''GOLD''] ''1d''
             ''2024-01-01'' ''2024-01-05'' example_world) = Inl e)
    \<and> files (snd (get_historical_data ''N'' ''c'' [''GOLDBEES'', ''SILVER'', ''GOLD''] ''1d''
                    ''2024-01-01'' ''2024-01-05'' example_world)) = files example_world
    \<and> fetch_log (snd (get_historical_data ''N'' ''c'' [''GOLDBEES'', ''SILVER'', ''GOLD''] ''1d''
                    ''2024-01-01'' ''2024-01-05'' example_world)) = fetch_log example_world"
proof -
  have h1: "''SILVER'' \<in> set [''GOLDBEES'', ''SILVER'', ''GOLD'']"
    by simp
  have h2: "no_tier_matches (scrip_master example_world) ''SILVER''"
    by code_simp
  show ?thesis
    using unresolved_name_aborts_batch[OF h1 h2] .
qed

section \<open>Dates that parse are days of the calendar\<close>

lemma digit_val_bounds: "digit_val c = Some v \<Longrightarrow> 0 \<le> v \<and> v \<le> 9"
  by (auto simp: digit_val_def Let_def split: if_splits)

lemma field_bounds: "field lo hi t = Some v \<Longrightarrow> 9 \<le> hi \<Longrightarrow> lo \<le> v \<and> v \<le> hi"
  by (cases "(lo, hi, t)" rule: field.cases)
     (auto split: option.splits if_splits dest: digit_val_bounds)

lemma day_field_lower: "day_field t = Some v \<Longrightarrow> 1 \<le> v"
  by (auto simp: day_field_def split: list.splits if_splits option.splits dest: digit_val_bounds)

lemma days_before_year_nonneg:
  assumes "1 \<le> y"
  shows "0 \<le> days_before_year y"
proof -
  define z where "z = y - 1"
  have z: "0 \<le> z" using assms by (simp add: z_def)
  have a: "z div 100 \<le> z div 4"
    using z by (intro zdiv_mono2) simp_all
  have b: "0 \<le> z div 400"
    using z by (simp add: pos_imp_zdiv_nonneg_iff)
  have c: "0 \<le> z * 365"
    using z by simp
  have "days_before_year y = z * 365 + z div 4 - z div 100 + z div 400"
    by (simp add: days_before_year_def Let_def z_def)
  with a b c show ?thesis by linarith
qed

lemma days_before_month_nonneg:
  assumes "1 \<le> m" "m \<le> 12"
  shows "0 \<le> days_before_month y m"
proof -
  have "m = 1 \<or> m = 2 \<or> m = 3 \<or> m = 4 \<or> m = 5 \<or> m = 6 \<or> m = 7 \<or> m = 8 \<or> m = 9
          \<or> m = 10 \<or> m = 11 \<or> m = 12"
    using assms by arith
  then show ?thesis
    by (auto simp: days_before_month_def)
qed

lemma ymd_fields_Some:
  assumes "ymd_fields ts = Some d"
  shows "\<exists>y m dd year month day. ts = [y, m, dd] \<and> year_field y = Some year
            \<and> field 1 12 m = Some month \<and> day_field dd = Some day \<and> 1 \<le> year
            \<and> d = ymd2ord year month day"
proof (cases ts)
  case Nil
  with assms show ?thesis by (simp add: ymd_fields_def)
next
  case c1: (Cons y t1)
  show ?thesis
  proof (cases t1)
    case Nil
    with assms c1 show ?thesis by (simp add: ymd_fields_def)
  next
    case c2: (Cons m t2)
    show ?thesis
    proof (cases t2)
      case Nil
      with assms c1 c2 show ?thesis by (simp add: ymd_fields_def)
    next
      case c3: (Cons dd t3)
      show ?thesis
      proof (cases t3)
        case Nil
        have "ymd_fields [y, m, dd] = Some d"
          using assms c1 c2 c3 Nil by simp
        then have "\<exists>year month day. year_field y = Some year
            \<and> field 1 12 m = Some month \<and> day_field dd = Some day \<and> 1 \<le> year
            \<and> d = ymd2ord year month day"
          unfolding ymd_fields_def
          by (simp split: option.splits if_splits)
        then show ?thesis using c1 c2 c3 Nil by blast
      next
        case (Cons x t4)
        with assms c1 c2 c3 show ?thesis by (simp add: ymd_fields_def)
      qed
    qed
  qed
qed

lemma strptime_ymd_positive: "strptime_ymd s = Some d \<Longrightarrow> 1 \<le> d"
proof -
  assume a: "strptime_ymd s = Some d"
  then obtain y m dd year month day where
    f: "year_field y = Some year" "field 1 12 m = Some month" "day_field dd = Some day"
       "1 \<le> year" "d = ymd2ord year month day"
    using ymd_fields_Some unfolding strptime_ymd_def by blast
  have "1 \<le> month \<and> month \<le> 12" using field_bounds[OF f(2)] by simp
  then have "0 \<le> days_before_month year month" using days_before_month_nonneg by simp
  moreover have "0 \<le> days_before_year year" using f(4) by (rule days_before_year_nonneg)
  moreover have "1 \<le> day" using f(3) by (rule day_field_lower)
  ultimately show ?thesis using f(5) by (simp add: ymd2ord_def)
qed

section \<open>The chunk loop\<close>

lemma non_empty_frames_Nil [simp]: "non_empty_frames [] = []"
  by (simp add: non_empty_frames_def List.map_filter_simps)

lemma non_empty_frames_Cons:
  "non_empty_frames ((c, Some d) # lg) = (if d = [] then non_empty_frames lg else d # non_empty_frames lg)"
  by (simp add: non_empty_frames_def List.map_filter_simps)

lemma historical_data_connected:
  "client w = Some api \<Longrightarrow>
     historical_data c w = (Inr (api (fetch_log w) c), w\<lparr>fetch_log := fetch_log w @ [(c, api (fetch_log w) c)]\<rparr>)"
  by (simp add: historical_data_def Let_def)

lemma historical_data_unconnected:
  "client w = None \<Longrightarrow> historical_data c w = (Inl AttributeError, w)"
  by (simp add: historical_data_def)

lemma chunk_loop_log:
  "chunk_loop exchange exchange_segment scrip_code time_period scrip_name current_date end_date data_frames w = (res, w1) \<Longrightarrow>
     files w1 = files w \<and> client w1 = client w \<and> scrip_master w1 = scrip_master w \<and> store_log w1 = store_log w
     \<and> (\<exists>new. fetch_log w1 = fetch_log w @ new
           \<and> (case res of
                 Inr dfs \<Rightarrow> dfs = data_frames @ non_empty_frames new \<and> \<not> unavailable new
               | Inl e \<Rightarrow> chunk_error scrip_name current_date end_date w new e))"
proof (induction exchange exchange_segment scrip_code time_period scrip_name current_date end_date data_frames w
        arbitrary: res w1 rule: chunk_loop.induct)
  case (1 exchange exchange_segment scrip_code time_period scrip_name current_date end_date data_frames w)
  note prem = "1.prems"
  show ?case
  proof (cases "current_date < end_date")
    case False
    with prem show ?thesis by (auto simp: unavailable_def)
  next
    case lt: True
    show ?thesis
    proof (cases "add_days current_date 180")
      case (Inl e)
      then have "e = OverflowError \<and> (current_date < 1 \<or> MAXORDINAL < end_date + 180)"
        using lt by (auto simp: add_days_def split: if_splits)
      with prem lt Inl show ?thesis by (auto simp: chunk_error_def)
    next
      case (Inr d)
      define c where "c = HistoricalData exchange exchange_segment scrip_code time_period
                           (strftime_ymd current_date) (strftime_ymd (min end_date d))"
      show ?thesis
      proof (cases "client w")
        case None
        with prem lt Inr show ?thesis
          by (auto simp: historical_data_unconnected chunk_error_def)
      next
        case (Some api)
        define r where "r = api (fetch_log w) c"
        define wa where "wa = w\<lparr>fetch_log := fetch_log w @ [(c, r)]\<rparr>"
        have hd: "historical_data c w = (Inr r, wa)"
          using historical_data_connected[OF Some] by (simp add: r_def wa_def)
        show ?thesis
        proof (cases r)
          case None
          with prem lt Inr hd show ?thesis
            by (auto simp: c_def wa_def chunk_error_def unavailable_def)
        next
          case (Some df)
          note r_some = Some
          show ?thesis
          proof (cases "add_days (min end_date d) 1")
            case (Inl e)
            then have "e = OverflowError \<and> (current_date < 1 \<or> MAXORDINAL < end_date + 180)"
              using lt Inr by (auto simp: add_days_def split: if_splits)
            with prem lt Inr hd r_some Inl show ?thesis
              by (auto simp: c_def wa_def chunk_error_def unavailable_def)
          next
            case nx: (Inr next_date)
            have nd: "next_date < 1 \<Longrightarrow> current_date < 1"
              using nx Inr lt by (auto simp: add_days_def split: if_splits)
            show ?thesis
            proof (cases "df = []")
              case True
              have run: "chunk_loop exchange exchange_segment scrip_code time_period scrip_name next_date end_date data_frames wa = (res, w1)"
                using prem lt Inr hd r_some nx True by (simp add: c_def)
              have IH: "files w1 = files wa \<and> client w1 = client wa \<and> scrip_master w1 = scrip_master wa \<and> store_log w1 = store_log wa
                 \<and> (\<exists>new. fetch_log w1 = fetch_log wa @ new
                 \<and> (case res of
                       Inr dfs \<Rightarrow> dfs = data_frames @ non_empty_frames new \<and> \<not> unavailable new
                     | Inl e \<Rightarrow> chunk_error scrip_name next_date end_date wa new e))"
                using "1.IH"(1)[OF lt Inr refl hd[unfolded c_def, symmetric] refl r_some nx True run] .
              then obtain new where new: "fetch_log w1 = fetch_log wa @ new"
                 "case res of
                       Inr dfs \<Rightarrow> dfs = data_frames @ non_empty_frames new \<and> \<not> unavailable new
                     | Inl e \<Rightarrow> chunk_error scrip_name next_date end_date wa new e" by blast
              have "fetch_log w1 = fetch_log w @ ((c, r) # new)" using new(1) by (simp add: wa_def)
              moreover have "case res of
                       Inr dfs \<Rightarrow> dfs = data_frames @ non_empty_frames ((c, r) # new) \<and> \<not> unavailable ((c, r) # new)
                     | Inl e \<Rightarrow> chunk_error scrip_name current_date end_date w ((c, r) # new) e"
                using new(2) r_some True nd
                by (auto simp: non_empty_frames_Cons chunk_error_def unavailable_def wa_def split: sum.splits)
              ultimately show ?thesis using IH by (auto simp: wa_def)
            next
              case False
              have run: "chunk_loop exchange exchange_segment scrip_code time_period scrip_name next_date end_date (data_frames @ [df]) wa = (res, w1)"
                using prem lt Inr hd r_some nx False by (simp add: c_def)
              have IH: "files w1 = files wa \<and> client w1 = client wa \<and> scrip_master w1 = scrip_master wa \<and> store_log w1 = store_log wa
                 \<and> (\<exists>new. fetch_log w1 = fetch_log wa @ new
                 \<and> (case res of
                       Inr dfs \<Rightarrow> dfs = (data_frames @ [df]) @ non_empty_frames new \<and> \<not> unavailable new
                     | Inl e \<Rightarrow> chunk_error scrip_name next_date end_date wa new e))"
                using "1.IH"(2)[OF lt Inr refl hd[unfolded c_def, symmetric] refl r_some nx False run] .
              then obtain new where new: "fetch_log w1 = fetch_log wa @ new"
                 "case res of
                       Inr dfs \<Rightarrow> dfs = (data_frames @ [df]) @ non_empty_frames new \<and> \<not> unavailable new
                     | Inl e \<Rightarrow> chunk_error scrip_name next_date end_date wa new e" by blast
              have "fetch_log w1 = fetch_log w @ ((c, r) # new)" using new(1) by (simp add: wa_def)
              moreover have "case res of
                       Inr dfs \<Rightarrow> dfs = data_frames @ non_empty_frames ((c, r) # new) \<and> \<not> unavailable ((c, r) # new)
                     | Inl e \<Rightarrow> chunk_error scrip_name current_date end_date w ((c, r) # new) e"
                using new(2) r_some False nd
                by (auto simp: non_empty_frames_Cons chunk_error_def unavailable_def wa_def split: sum.splits)
              ultimately show ?thesis using IH by (auto simp: wa_def)
            qed
          qed
        qed
      qed
    qed
  qed
qed

lemma new_calls_append: "fetch_log w1 = fetch_log w @ new \<Longrightarrow> new_calls w w1 = new"
  by (simp add: new_calls_def)

text \<open>
  C6. One security on the intraday path, with no artifact yet, well-formed dates, an end date
  that leaves room for the 180-day step, a connected client, and every chunk answered with a
  data frame. When no chunk brought rows the security fails with "No data found" and the files
  are as before; otherwise exactly the artifact of the security is written, and it holds the
  non-empty answers concatenated in the order of the calls.
\<close>

theorem intraday_outcome:
  assumes conn: "client w = Some api"
    and absent: "\<not> path_exists (file_name_of exchange exchange_segment time_period from_date to_date scrip_name) w"
    and from_ok: "strptime_ymd from_date = Some start_date"
    and to_ok: "strptime_ymd to_date = Some end_date"
    and bound: "end_date + 180 \<le> MAXORDINAL"
    and avail: "\<not> unavailable (new_calls w (snd (intraday_security exchange exchange_segment
                     time_period from_date to_date scrip_code scrip_name w)))"
  shows "let r = intraday_security exchange exchange_segment time_period from_date to_date
                   scrip_code scrip_name w;
             frames = non_empty_frames (new_calls w (snd r))
         in if frames = []
            then fst r = Inl (NoDataFound scrip_name) \<and> files (snd r) = files w
            else fst r = Inr ()
               \<and> files (snd r) =
                   (files w)(file_name_of exchange exchange_segment time_period from_date to_date
                               scrip_name \<mapsto> concat frames)"
proof -
  obtain res w1 where run: "chunk_loop exchange exchange_segment scrip_code time_period scrip_name
      start_date end_date [] w = (res, w1)"
    by (cases "chunk_loop exchange exchange_segment scrip_code time_period scrip_name
      start_date end_date [] w")
  from chunk_loop_log[OF run] obtain new where
    fr: "files w1 = files w" and lg: "fetch_log w1 = fetch_log w @ new"
    and cs: "case res of Inr dfs \<Rightarrow> dfs = [] @ non_empty_frames new \<and> \<not> unavailable new
              | Inl e \<Rightarrow> chunk_error scrip_name start_date end_date w new e"
    by blast
  have pos: "1 \<le> start_date" using from_ok by (rule strptime_ymd_positive)
  show ?thesis
  proof (cases res)
    case (Inl e)
    have r: "intraday_security exchange exchange_segment time_period from_date to_date
                   scrip_code scrip_name w = (Inl e, w1)"
      using absent from_ok to_ok run Inl by (simp add: intraday_security_def)
    have "new_calls w w1 = new" using lg by (rule new_calls_append)
    with avail r have "\<not> unavailable new" by simp
    with cs Inl conn pos bound show ?thesis by (simp add: chunk_error_def)
  next
    case (Inr dfs)
    with cs have dfs: "dfs = non_empty_frames new" by simp
    show ?thesis
    proof (cases "dfs = []")
      case True
      have r: "intraday_security exchange exchange_segment time_period from_date to_date
                   scrip_code scrip_name w = (Inl (NoDataFound scrip_name), w1)"
        using absent from_ok to_ok run Inr True by (simp add: intraday_security_def)
      show ?thesis using r True dfs fr new_calls_append[OF lg] by (simp add: Let_def)
    next
      case False
      have r: "intraday_security exchange exchange_segment time_period from_date to_date
                   scrip_code scrip_name w = (Inr (), save_to_csv (concat dfs)
          (file_name_of exchange exchange_segment time_period from_date to_date scrip_name) w1)"
        using absent from_ok to_ok run Inr False by (simp add: intraday_security_def)
      have "new_calls w (save_to_csv (concat dfs)
          (file_name_of exchange exchange_segment time_period from_date to_date scrip_name) w1) = new"
        using lg by (simp add: new_calls_def save_to_csv_def)
      then show ?thesis using r False dfs fr by (simp add: Let_def save_to_csv_def)
    qed
  qed
qed

theorem intraday_outcome_witness:
  "(fst (intraday_security ''N'' ''c'' ''30m'' ''2020-01-01'' ''2020-06-30'' 30 ''GOLDBEES'' example_world) = Inr ()
    \<and> files (snd (intraday_security ''N'' ''c'' ''30m'' ''2020-01-01'' ''2020-06-30'' 30 ''GOLDBEES'' example_world))
      = (files example_world)(''data/GOLDBEES/GOLDBEES_NSE_Cash_30m_2020-01-01_to_2020-06-30.csv''
           \<mapsto> [\<lparr>Datetime = ''2020-01-01T09:15:00'', Cells = [''100.5'']\<rparr>]))
   \<and> (fst (intraday_security ''N'' ''c'' ''30m'' ''2020-01-01'' ''2020-06-30'' 30 ''GOLDBEES'' quiet_world)
         = Inl (NoDataFound ''GOLDBEES'')
    \<and> files (snd (intraday_security ''N'' ''c'' ''30m'' ''2020-01-01'' ''2020-06-30'' 30 ''GOLDBEES'' quiet_world))
      = files quiet_world)"
proof -
  have d1: "strptime_ymd ''2020-01-01'' = Some 737425"
    by code_simp
  have d2: "strptime_ymd ''2020-06-30'' = Some 737606"
    by code_simp
  have b: "(737606::int) + 180 \<le> MAXORDINAL"
    by (simp add: MAXORDINAL_def)
  have fn: "file_name_of ''N'' ''c'' ''30m'' ''2020-01-01'' ''2020-06-30'' ''GOLDBEES''
        = ''data/GOLDBEES/GOLDBEES_NSE_Cash_30m_2020-01-01_to_2020-06-30.csv''"
    by code_simp
  have c1: "client example_world = Some one_row_api"
    by (simp add: example_world_def)
  have a1: "\<not> path_exists (file_name_of ''N'' ''c'' ''30m'' ''2020-01-01'' ''2020-06-30'' ''GOLDBEES'') example_world"
    by code_simp
  have u1: "\<not> unavailable (new_calls example_world (snd (intraday_security ''N'' ''c'' ''30m''
               ''2020-01-01'' ''2020-06-30'' 30 ''GOLDBEES'' example_world)))"
    by code_simp
  have f1: "non_empty_frames (new_calls example_world (snd (intraday_security ''N'' ''c'' ''30m''
               ''2020-01-01'' ''2020-06-30'' 30 ''GOLDBEES'' example_world)))
            = [[\<lparr>Datetime = ''2020-01-01T09:15:00'', Cells = [''100.5'']\<rparr>]]"
    by code_simp
  have c2: "client quiet_world = Some empty_api"
    by (simp add: quiet_world_def)
  have a2: "\<not> path_exists (file_name_of ''N'' ''c'' ''30m'' ''2020-01-01'' ''2020-06-30'' ''GOLDBEES'') quiet_world"
    by code_simp
  have u2: "\<not> unavailable (new_calls quiet_world (snd (intraday_security ''N'' ''c'' ''30m''
               ''2020-01-01'' ''2020-06-30'' 30 ''GOLDBEES'' quiet_world)))"
    by code_simp
  have f2: "non_empty_frames (new_calls quiet_world (snd (intraday_security ''N'' ''c'' ''30m''
               ''2020-01-01'' ''2020-06-30'' 30 ''GOLDBEES'' quiet_world))) = []"
    by code_simp
  show ?thesis
    using intraday_outcome[OF c1 a1 d1 d2 b u1] intraday_outcome[OF c2 a2 d1 d2 b u2]
    by (simp add: Let_def f1 f2 fn)
qed

text \<open>
  C10. When the start date is not before the end date, the first security without an artifact
  (those before it are skipped) fails with "No data found" and the world is unchanged: the
  loop body never runs and no call is made, whatever the API would have answered.
\<close>

theorem empty_range_no_fetch:
  assumes from_ok: "strptime_ymd from_date = Some start_date"
    and to_ok: "strptime_ymd to_date = Some end_date"
    and order: "end_date \<le> start_date"
    and tp: "time_period \<in> set [''1m'', ''5m'', ''10m'', ''15m'', ''30m'', ''60m'']"
    and skipped: "list_all (\<lambda>(c, n). path_exists (file_name_of exchange exchange_segment time_period from_date to_date n) w) before"
    and absent: "\<not> path_exists (file_name_of exchange exchange_segment time_period from_date to_date scrip_name) w"
  shows "get_historical_intraday_data exchange exchange_segment
           (before @ (scrip_code, scrip_name) # rest) time_period from_date to_date w
         = (Inl (NoDataFound scrip_name), w)"
proof -
  have one: "intraday_security exchange exchange_segment time_period from_date to_date scrip_code scrip_name w
      = (Inl (NoDataFound scrip_name), w)"
    using from_ok to_ok order absent by (simp add: intraday_security_def)
  have "intraday_loop exchange exchange_segment time_period from_date to_date
          (before @ (scrip_code, scrip_name) # rest) w = (Inl (NoDataFound scrip_name), w)"
    using skipped
  proof (induction before)
    case Nil
    then show ?case using one by simp
  next
    case (Cons p ps)
    then show ?case by (cases p) (simp add: intraday_security_def)
  qed
  then show ?thesis using tp by (simp add: get_historical_intraday_data_def)
qed

theorem empty_range_no_fetch_witness:
  "get_historical_intraday_data ''N'' ''c'' [(30, ''GOLDBEES''), (10, ''GOLD'')] ''30m''
      ''2020-01-01'' ''2020-01-01'' example_world
   = (Inl (NoDataFound ''GOLDBEES''), example_world)"
proof -
  have d1: "strptime_ymd ''2020-01-01'' = Some 737425"
    by code_simp
  have o: "(737425::int) \<le> 737425"
    by simp
  have tp: "''30m'' \<in> set [''1m'', ''5m'', ''10m'', ''15m'', ''30m'', ''60m'']"
    by simp
  have sk: "list_all (\<lambda>(c, n). path_exists (file_name_of ''N'' ''c'' ''30m'' ''2020-01-01'' ''2020-01-01'' n) example_world) []"
    by simp
  have a: "\<not> path_exists (file_name_of ''N'' ''c'' ''30m'' ''2020-01-01'' ''2020-01-01'' ''GOLDBEES'') example_world"
    by code_simp
  show ?thesis
    using empty_range_no_fetch[OF d1 d1 o tp sk a, of 30 "[(10, ''GOLD'')]"] by simp
qed

section \<open>Artifacts already on disk\<close>

lemma daily_loop_all_exist:
  "list_all (\<lambda>(c, n). path_exists (file_name_of exchange exchange_segment time_period from_date to_date n) w) m
   \<Longrightarrow> daily_loop exchange exchange_segment time_period from_date to_date m w = (Inr (), w)"
  by (induction m) (auto simp: daily_security_def)

lemma intraday_loop_all_exist:
  "list_all (\<lambda>(c, n). path_exists (file_name_of exchange exchange_segment time_period from_date to_date n) w) m
   \<Longrightarrow> intraday_loop exchange exchange_segment time_period from_date to_date m w = (Inr (), w)"
  by (induction m) (auto simp: intraday_security_def)

lemma path_exists_files: "files w1 = files w \<Longrightarrow> path_exists f w1 = path_exists f w"
  by (simp add: path_exists_def)

lemma check_arguments_intraday:
  assumes "check_arguments exchange exchange_segment scrip_names time_period from_date to_date w = Inr u"
    and "time_period \<noteq> ''1d''"
  shows "time_period \<in> set [''1m'', ''5m'', ''10m'', ''15m'', ''30m'', ''60m'']"
  using assms
  by (auto simp: check_arguments_def validate_exchange_segment_and_time_def time_list_def
           split: if_splits)

text \<open>
  C5. When the artifact of every resolved security exists, a request makes no call to the
  market-data API and leaves the files as they are, on the daily path and on the intraday
  path alike; with valid arguments it ends without an exception.
\<close>

theorem existing_artifacts_no_fetch:
  assumes res: "fst (resolve_scrips scrip_names w) = Inr m"
    and ex: "list_all (\<lambda>(c, n). path_exists (file_name_of exchange exchange_segment time_period
                                    from_date to_date n) w) m"
  shows "fetch_log (snd (get_historical_data exchange exchange_segment scrip_names time_period
                    from_date to_date w)) = fetch_log w
    \<and> files (snd (get_historical_data exchange exchange_segment scrip_names time_period
                    from_date to_date w)) = files w
    \<and> fst (get_historical_data exchange exchange_segment scrip_names time_period from_date to_date w)
        = (case check_arguments exchange exchange_segment scrip_names time_period from_date to_date w of
             Inl e \<Rightarrow> Inl e | Inr u \<Rightarrow> Inr ())"
proof (cases "check_arguments exchange exchange_segment scrip_names time_period from_date to_date w")
  case (Inl e)
  then show ?thesis by (simp add: get_historical_data_def)
next
  case (Inr u)
  obtain w1 where rw: "resolve_scrips scrip_names w = (Inr m, w1)"
    using res by (cases "resolve_scrips scrip_names w") simp
  note fr = resolve_scrips_frame[OF rw]
  have ex1: "list_all (\<lambda>(c, n). path_exists (file_name_of exchange exchange_segment time_period
                                    from_date to_date n) w1) m"
    using ex fr by (simp add: path_exists_def)
  show ?thesis
  proof (cases "time_period = ''1d''")
    case True
    have "get_historical_data exchange exchange_segment scrip_names time_period from_date to_date w
            = (Inr (), w1)"
      using Inr rw True daily_loop_all_exist[OF ex1] by (simp add: get_historical_data_def)
    then show ?thesis using fr Inr by simp
  next
    case False
    have tp: "time_period \<in> set [''1m'', ''5m'', ''10m'', ''15m'', ''30m'', ''60m'']"
      using check_arguments_intraday[OF Inr False] .
    have "get_historical_data exchange exchange_segment scrip_names time_period from_date to_date w
            = (Inr (), w1)"
      using Inr rw False tp intraday_loop_all_exist[OF ex1]
      by (simp add: get_historical_data_def get_historical_intraday_data_def)
    then show ?thesis using fr Inr by simp
  qed
qed

theorem existing_artifacts_no_fetch_witness:
  "(fetch_log (snd (get_historical_data ''N'' ''c'' [''GOLDBEES''] ''30m'' ''2020-01-01'' ''2020-06-30''
       (snd (get_historical_data ''N'' ''c'' [''GOLDBEES''] ''30m'' ''2020-01-01'' ''2020-06-30'' example_world))))
     = fetch_log (snd (get_historical_data ''N'' ''c'' [''GOLDBEES''] ''30m'' ''2020-01-01'' ''2020-06-30'' example_world))
    \<and> fst (get_historical_data ''N'' ''c'' [''GOLDBEES''] ''30m'' ''2020-01-01'' ''2020-06-30''
       (snd (get_historical_data ''N'' ''c'' [''GOLDBEES''] ''30m'' ''2020-01-01'' ''2020-06-30'' example_world)))
     = Inr ())
   \<and> (fetch_log (snd (get_historical_data ''N'' ''c'' [''GOLDBEES'', ''GOLD''] ''1d'' ''2024-01-01'' ''2024-01-05''
       (snd (get_historical_data ''N'' ''c'' [''GOLDBEES'', ''GOLD''] ''1d'' ''2024-01-01'' ''2024-01-05'' example_world))))
     = fetch_log (snd (get_historical_data ''N'' ''c'' [''GOLDBEES'', ''GOLD''] ''1d'' ''2024-01-01'' ''2024-01-05'' example_world))
    \<and> fst (get_historical_data ''N'' ''c'' [''GOLDBEES'', ''GOLD''] ''1d'' ''2024-01-01'' ''2024-01-05''
       (snd (get_historical_data ''N'' ''c'' [''GOLDBEES'', ''GOLD''] ''1d'' ''2024-01-01'' ''2024-01-05'' example_world)))
     = Inr ())"
proof -
  define w1 where "w1 = snd (get_historical_data ''N'' ''c'' [''GOLDBEES''] ''30m'' ''2020-01-01'' ''2020-06-30'' example_world)"
  define w2 where "w2 = snd (get_historical_data ''N'' ''c'' [''GOLDBEES'', ''GOLD''] ''1d'' ''2024-01-01'' ''2024-01-05'' example_world)"
  have r1: "fst (resolve_scrips [''GOLDBEES''] w1) = Inr [(30, ''GOLDBEES'')]"
    unfolding w1_def by code_simp
  have e1: "list_all (\<lambda>(c, n). path_exists (file_name_of ''N'' ''c'' ''30m'' ''2020-01-01'' ''2020-06-30'' n) w1)
              [(30, ''GOLDBEES'')]"
    unfolding w1_def by code_simp
  have k1: "check_arguments ''N'' ''c'' [''GOLDBEES''] ''30m'' ''2020-01-01'' ''2020-06-30'' w1 = Inr ()"
    unfolding w1_def by code_simp
  have r2: "fst (resolve_scrips [''GOLDBEES'', ''GOLD''] w2) = Inr [(30, ''GOLDBEES''), (10, ''GOLD'')]"
    unfolding w2_def by code_simp
  have e2: "list_all (\<lambda>(c, n). path_exists (file_name_of ''N'' ''c'' ''1d'' ''2024-01-01'' ''2024-01-05'' n) w2)
              [(30, ''GOLDBEES''), (10, ''GOLD'')]"
    unfolding w2_def by code_simp
  have k2: "check_arguments ''N'' ''c'' [''GOLDBEES'', ''GOLD''] ''1d'' ''2024-01-01'' ''2024-01-05'' w2 = Inr ()"
    unfolding w2_def by code_simp
  show ?thesis
    using existing_artifacts_no_fetch[OF r1 e1] existing_artifacts_no_fetch[OF r2 e2] k1 k2
    unfolding w1_def w2_def by simp
qed

section \<open>The daily path\<close>

text \<open>
  C7. A security of the daily loop whose artifact is absent, with a connected client: its
  body makes exactly one call, for the whole range \<open>from_date\<close> to \<open>to_date\<close>. An answer
  of \<open>None\<close> ends the whole loop with "Could not fetch", the remaining securities untouched;
  an empty data frame writes nothing and the loop goes on with the remaining securities;
  rows are normalised and saved, and the loop goes on.
\<close>

theorem daily_fetch_outcome:
  assumes conn: "client w = Some api"
    and absent: "\<not> path_exists (file_name_of exchange exchange_segment time_period from_date to_date scrip_name) w"
  shows "let c = HistoricalData exchange exchange_segment scrip_code time_period from_date to_date;
             r = api (fetch_log w) c;
             w1 = w\<lparr>fetch_log := fetch_log w @ [(c, r)]\<rparr>;
             run = daily_loop exchange exchange_segment time_period from_date to_date
                     ((scrip_code, scrip_name) # rest) w
         in new_calls w (snd (daily_security exchange exchange_segment time_period from_date to_date
                               scrip_code scrip_name w)) = [(c, r)]
          \<and> (case r of
                None \<Rightarrow> run = (Inl (CouldNotFetch scrip_name), w1)
              | Some data_frame \<Rightarrow>
                  if data_frame = []
                  then run = daily_loop exchange exchange_segment time_period from_date to_date rest w1
                  else (case normalise_datetime data_frame of
                          Inl e \<Rightarrow> run = (Inl e, w1)
                        | Inr data_frame' \<Rightarrow>
                            run = daily_loop exchange exchange_segment time_period from_date to_date rest
                                    (save_to_csv data_frame'
                                       (file_name_of exchange exchange_segment time_period from_date
                                          to_date scrip_name) w1)))"
  using absent
  by (simp add: Let_def daily_security_def historical_data_connected[OF conn] new_calls_def
        save_to_csv_def split: option.splits sum.splits)

theorem daily_fetch_outcome_witness:
  "daily_loop ''N'' ''c'' ''1d'' ''2024-01-01'' ''2024-01-05'' [(30, ''GOLDBEES''), (10, ''GOLD'')] broken_world
     = (Inl (CouldNotFetch ''GOLDBEES''),
        broken_world\<lparr>fetch_log := fetch_log broken_world
           @ [(HistoricalData ''N'' ''c'' 30 ''1d'' ''2024-01-01'' ''2024-01-05'', None)]\<rparr>)
   \<and> daily_loop ''N'' ''c'' ''1d'' ''2024-01-01'' ''2024-01-05'' [(30, ''GOLDBEES''), (10, ''GOLD'')] quiet_world
     = daily_loop ''N'' ''c'' ''1d'' ''2024-01-01'' ''2024-01-05'' [(10, ''GOLD'')]
         (quiet_world\<lparr>fetch_log := fetch_log quiet_world
           @ [(HistoricalData ''N'' ''c'' 30 ''1d'' ''2024-01-01'' ''2024-01-05'', Some [])]\<rparr>)"
proof -
  have c1: "client broken_world = Some failing_api"
    by (simp add: broken_world_def)
  have a1: "\<not> path_exists (file_name_of ''N'' ''c'' ''1d'' ''2024-01-01'' ''2024-01-05'' ''GOLDBEES'') broken_world"
    by code_simp
  have c2: "client quiet_world = Some empty_api"
    by (simp add: quiet_world_def)
  have a2: "\<not> path_exists (file_name_of ''N'' ''c'' ''1d'' ''2024-01-01'' ''2024-01-05'' ''GOLDBEES'') quiet_world"
    by code_simp
  show ?thesis
    using daily_fetch_outcome[OF c1 a1, of 30 "[(10, ''GOLD'')]"]
          daily_fetch_outcome[OF c2 a2, of 30 "[(10, ''GOLD'')]"]
    by (simp add: Let_def failing_api_def empty_api_def)
qed

section \<open>The chunks of the intraday path\<close>

text \<open>
  What does hold of the chunks: a run of the loop that ends normally has made exactly the
  calls of \<open>chunk_bounds\<close>; each chunk starts on the day after the one before it ended,
  spans at most 180 days and ends no later than the end date. The last chunk ends on the end
  date unless the distance from start to end is a multiple of 181 days; then it ends the day
  before.
\<close>

lemma chunk_bounds_empty: "\<not> current_date < end_date \<Longrightarrow> chunk_bounds current_date end_date = []"
  by (simp add: chunk_bounds.simps)

lemma chunk_bounds_step:
  "current_date < end_date \<Longrightarrow>
     chunk_bounds current_date end_date
       = (current_date, min end_date (current_date + 180))
           # chunk_bounds (min end_date (current_date + 180) + 1) end_date"
  by (subst chunk_bounds.simps) simp

lemma chunk_bounds_last:
  "current_date < end_date \<Longrightarrow>
     snd (last (chunk_bounds current_date end_date))
       = (if (end_date - current_date) mod 181 = 0 then end_date - 1 else end_date)"
proof (induction current_date end_date rule: chunk_bounds.induct)
  case (1 current_date end_date)
  note lt = "1.prems"
  show ?case
  proof (cases "current_date + 180 < end_date")
    case False
    then have m: "min end_date (current_date + 180) = end_date" by simp
    have "chunk_bounds current_date end_date = [(current_date, end_date)]"
      using chunk_bounds_step[OF lt] m by (simp add: chunk_bounds_empty)
    moreover have "(end_date - current_date) mod 181 \<noteq> 0"
    proof -
      have "0 < end_date - current_date" "end_date - current_date < 181" using lt False by auto
      then show ?thesis by simp
    qed
    ultimately show ?thesis by simp
  next
    case True
    then have m: "min end_date (current_date + 180) = current_date + 180" by simp
    show ?thesis
    proof (cases "current_date + 181 < end_date")
      case False
      with True have e: "end_date = current_date + 181" by simp
      have "chunk_bounds current_date end_date = [(current_date, current_date + 180)]"
        using chunk_bounds_step[OF lt] m e by (simp add: chunk_bounds_empty)
      then show ?thesis using e by simp
    next
      case nx: True
      have ne: "chunk_bounds (current_date + 181) end_date \<noteq> []"
        using chunk_bounds_step[OF nx] by simp
      have "snd (last (chunk_bounds current_date end_date))
              = snd (last (chunk_bounds (current_date + 181) end_date))"
        using chunk_bounds_step[OF lt] m ne by (simp add: add.commute add.left_commute)
      also have "\<dots> = (if (end_date - (current_date + 181)) mod 181 = 0 then end_date - 1 else end_date)"
        using "1.IH"[OF lt] nx m by (simp add: add.commute add.left_commute)
      also have "(end_date - (current_date + 181)) mod 181 = (end_date - current_date) mod 181"
      proof -
        have "end_date - (current_date + 181) = (end_date - current_date) - 181" by simp
        then show ?thesis by (metis minus_mod_self2)
      qed
      finally show ?thesis .
    qed
  qed
qed

lemma chunk_bounds_consecutive:
  "Suc i < length (chunk_bounds current_date end_date) \<Longrightarrow>
     fst (chunk_bounds current_date end_date ! Suc i)
       = snd (chunk_bounds current_date end_date ! i) + 1"
proof (induction current_date end_date arbitrary: i rule: chunk_bounds.induct)
  case (1 current_date end_date)
  show ?case
  proof (cases "current_date < end_date")
    case False
    with "1.prems" show ?thesis by (simp add: chunk_bounds_empty)
  next
    case lt: True
    define nxt where "nxt = min end_date (current_date + 180) + 1"
    have st: "chunk_bounds current_date end_date
                = (current_date, min end_date (current_date + 180)) # chunk_bounds nxt end_date"
      using chunk_bounds_step[OF lt] by (simp add: nxt_def)
    show ?thesis
    proof (cases i)
      case 0
      have "chunk_bounds nxt end_date \<noteq> []" using "1.prems" st 0 by auto
      then have "nxt < end_date" using chunk_bounds_empty by blast
      then have "fst (hd (chunk_bounds nxt end_date)) = nxt"
        using chunk_bounds_step[of nxt end_date] by simp
      then show ?thesis using st 0 \<open>chunk_bounds nxt end_date \<noteq> []\<close>
        by (simp add: nxt_def hd_conv_nth)
    next
      case (Suc j)
      have "Suc j < length (chunk_bounds nxt end_date)" using "1.prems" st Suc by simp
      then have "fst (chunk_bounds nxt end_date ! Suc j) = snd (chunk_bounds nxt end_date ! j) + 1"
        using "1.IH"[OF lt] by (simp add: nxt_def)
      then show ?thesis using st Suc by simp
    qed
  qed
qed

lemma chunk_bounds_span:
  "(s, e) \<in> set (chunk_bounds current_date end_date) \<Longrightarrow>
     current_date \<le> s \<and> s \<le> e \<and> e \<le> s + 180 \<and> e \<le> end_date"
proof (induction current_date end_date rule: chunk_bounds.induct)
  case (1 current_date end_date)
  show ?case
  proof (cases "current_date < end_date")
    case False
    with "1.prems" show ?thesis by (simp add: chunk_bounds_empty)
  next
    case lt: True
    from "1.prems" chunk_bounds_step[OF lt]
    consider "(s, e) = (current_date, min end_date (current_date + 180))"
      | "(s, e) \<in> set (chunk_bounds (min end_date (current_date + 180) + 1) end_date)"
      by auto
    then show ?thesis
    proof cases
      case 1
      then show ?thesis using lt by auto
    next
      case 2
      from "1.IH"[OF lt 2] lt show ?thesis by auto
    qed
  qed
qed

lemma add_days_Inr: "add_days d k = Inr d' \<Longrightarrow> d' = d + k"
  by (simp add: add_days_def split: if_splits)

lemma chunk_loop_calls_aux:
  "chunk_loop exchange exchange_segment scrip_code time_period scrip_name current_date end_date
      data_frames w = (Inr dfs, w1) \<Longrightarrow>
   map fst (fetch_log w1)
     = map fst (fetch_log w)
         @ map (chunk_call exchange exchange_segment scrip_code time_period)
             (chunk_bounds current_date end_date)"
proof (induction exchange exchange_segment scrip_code time_period scrip_name current_date end_date
         data_frames w arbitrary: dfs w1 rule: chunk_loop.induct)
  case (1 exchange exchange_segment scrip_code time_period scrip_name current_date end_date data_frames w)
  note prem = "1.prems"
  show ?case
  proof (cases "current_date < end_date")
    case False
    with prem show ?thesis by (simp add: chunk_bounds_empty)
  next
    case lt: True
    note st = chunk_bounds_step[OF lt]
    show ?thesis
    proof (cases "add_days current_date 180")
      case (Inl e)
      with prem lt show ?thesis by simp
    next
      case (Inr d)
      have d: "d = current_date + 180" using Inr by (rule add_days_Inr)
      define c where "c = HistoricalData exchange exchange_segment scrip_code time_period
                           (strftime_ymd current_date) (strftime_ymd (min end_date d))"
      have cc: "c = chunk_call exchange exchange_segment scrip_code time_period
                      (current_date, min end_date (current_date + 180))"
        by (simp add: c_def chunk_call_def d)
      show ?thesis
      proof (cases "client w")
        case None
        with prem lt Inr show ?thesis
          by (simp add: historical_data_def)
      next
        case (Some api)
        define r where "r = api (fetch_log w) c"
        define wa where "wa = w\<lparr>fetch_log := fetch_log w @ [(c, r)]\<rparr>"
        have hd: "historical_data c w = (Inr r, wa)"
          using Some by (simp add: historical_data_def Let_def r_def wa_def)
        show ?thesis
        proof (cases r)
          case None
          with prem lt Inr hd show ?thesis by (simp add: c_def)
        next
          case r_some: (Some df)
          show ?thesis
          proof (cases "add_days (min end_date d) 1")
            case (Inl e)
            with prem lt Inr hd r_some show ?thesis by (simp add: c_def)
          next
            case nx: (Inr next_date)
            have nd: "next_date = min end_date (current_date + 180) + 1"
              using add_days_Inr[OF nx] d by simp
            show ?thesis
            proof (cases "df = []")
              case True
              have run: "chunk_loop exchange exchange_segment scrip_code time_period scrip_name
                           next_date end_date data_frames wa = (Inr dfs, w1)"
                using prem lt Inr hd r_some nx True by (simp add: c_def)
              have "map fst (fetch_log w1) = map fst (fetch_log wa)
                      @ map (chunk_call exchange exchange_segment scrip_code time_period)
                          (chunk_bounds next_date end_date)"
                using "1.IH"(1)[OF lt Inr refl hd[unfolded c_def, symmetric] refl r_some nx True run] .
              then show ?thesis using st cc nd by (simp add: wa_def)
            next
              case False
              have run: "chunk_loop exchange exchange_segment scrip_code time_period scrip_name
                           next_date end_date (data_frames @ [df]) wa = (Inr dfs, w1)"
                using prem lt Inr hd r_some nx False by (simp add: c_def)
              have "map fst (fetch_log w1) = map fst (fetch_log wa)
                      @ map (chunk_call exchange exchange_segment scrip_code time_period)
                          (chunk_bounds next_date end_date)"
                using "1.IH"(2)[OF lt Inr refl hd[unfolded c_def, symmetric] refl r_some nx False run] .
              then show ?thesis using st cc nd by (simp add: wa_def)
            qed
          qed
        qed
      qed
    qed
  qed
qed

lemma chunk_loop_calls:
  assumes "chunk_loop exchange exchange_segment scrip_code time_period scrip_name start_date end_date
             data_frames w = (Inr dfs, w1)"
  shows "map fst (new_calls w w1)
           = map (chunk_call exchange exchange_segment scrip_code time_period)
               (chunk_bounds start_date end_date)"
proof -
  have "map fst (new_calls w w1) = drop (length (map fst (fetch_log w))) (map fst (fetch_log w1))"
    by (simp add: new_calls_def drop_map)
  then show ?thesis
    using chunk_loop_calls_aux[OF assms] by simp
qed

text \<open>
  C1. The chunks are claimed to cover the range from start to end, the last one ending at the
  end date. For 2020-01-01 to 2020-06-30, which are 181 days apart, the only call made is for
  2020-01-01 to 2020-06-29: after it the cursor equals the end date, the loop condition
  \<open>current_date < end_date\<close> fails, and the last day is never requested.
\<close>

theorem chunking_failing_input:
  "chunk_bounds 737425 737606 = [(737425, 737605)]
   \<and> strptime_ymd ''2020-01-01'' = Some 737425 \<and> strptime_ymd ''2020-06-29'' = Some 737605
   \<and> strptime_ymd ''2020-06-30'' = Some 737606
   \<and> fst (get_historical_intraday_data ''N'' ''c'' [(30, ''GOLDBEES'')] ''30m'' ''2020-01-01''
            ''2020-06-30'' example_world) = Inr ()
   \<and> map fst (fetch_log (snd (get_historical_intraday_data ''N'' ''c'' [(30, ''GOLDBEES'')] ''30m''
                                ''2020-01-01'' ''2020-06-30'' example_world)))
       = [HistoricalData ''N'' ''c'' 30 ''30m'' ''2020-01-01'' ''2020-06-29'']"
  by code_simp

section \<open>Validation of the request\<close>

lemma time_list_keys:
  "(time_period \<in> set time_list)
     = (time_period \<in> set [''1m'', ''5m'', ''10m'', ''15m'', ''30m'', ''60m'', ''1d''])"
  by (simp add: time_list_def)

lemma exchange_map_keys:
  "(map_of exchange_map exchange \<noteq> None) = (exchange \<in> set [''N'', ''B'', ''M'', ''n''])"
  by (simp add: exchange_map_def)

lemma exchange_segment_map_keys:
  "(map_of exchange_segment_map exchange_segment \<noteq> None)
     = (exchange_segment \<in> set [''c'', ''d'', ''u'', ''x'', ''y''])"
  by (simp add: exchange_segment_map_def)

lemma time_list_nonempty: "time_period \<in> set time_list \<Longrightarrow> time_period \<noteq> []"
  by (auto simp: time_list_def)

lemma exchange_map_nonempty: "map_of exchange_map exchange \<noteq> None \<Longrightarrow> exchange \<noteq> []"
  by (auto simp: exchange_map_def)

lemma exchange_segment_map_nonempty:
  "map_of exchange_segment_map exchange_segment \<noteq> None \<Longrightarrow> exchange_segment \<noteq> []"
  by (auto simp: exchange_segment_map_def)

lemma valid_request_alt:
  "valid_request exchange exchange_segment scrip_names time_period from_date to_date
     = (time_period \<in> set time_list \<and> map_of exchange_map exchange \<noteq> None
        \<and> map_of exchange_segment_map exchange_segment \<noteq> None
        \<and> scrip_names \<noteq> [] \<and> from_date \<noteq> [] \<and> to_date \<noteq> [])"
  unfolding valid_request_def time_list_keys exchange_map_keys exchange_segment_map_keys ..

lemma check_arguments_valid:
  assumes "client w \<noteq> None"
  shows "(check_arguments exchange exchange_segment scrip_names time_period from_date to_date w = Inr ())
           = valid_request exchange exchange_segment scrip_names time_period from_date to_date"
  unfolding valid_request_alt check_arguments_def validate_exchange_segment_and_time_def
  using assms time_list_nonempty[of time_period] exchange_map_nonempty[of exchange]
    exchange_segment_map_nonempty[of exchange_segment]
  by (auto split: if_splits)

lemma check_arguments_error:
  assumes "client w \<noteq> None"
    and "check_arguments exchange exchange_segment scrip_names time_period from_date to_date w = Inl e"
  shows "invalid_request_error e"
  using assms
  unfolding check_arguments_def validate_exchange_segment_and_time_def
  by (auto split: if_splits)

subsection \<open>The exceptions raised after validation\<close>

lemma fetch_scrip_codes_error:
  "fetch_scrip_codes names acc w = (Inl e, w1) \<Longrightarrow> \<not> invalid_request_error e"
proof (induction names arbitrary: acc w)
  case Nil
  then show ?case by simp
next
  case (Cons n ns)
  then show ?case
    by (auto simp: Let_def split: sum.splits option.splits dest: get_scrip_code_by_name_error)
qed

lemma correct_scrip_names_error:
  "correct_scrip_names codes acc w = (Inl e, w1) \<Longrightarrow> \<not> invalid_request_error e"
proof (induction codes arbitrary: acc w)
  case Nil
  then show ?case by simp
next
  case (Cons n ns)
  then show ?case
    by (auto simp: Let_def split: option.splits)
qed

lemma resolve_scrips_error:
  assumes "resolve_scrips names w = (Inl e, w1)"
  shows "\<not> invalid_request_error e"
proof (cases "fetch_scrip_codes names [] w")
  case (Pair a wa)
  show ?thesis
  proof (cases a)
    case (Inl e')
    with Pair assms have "e' = e" by (simp add: resolve_scrips_def)
    with Pair Inl fetch_scrip_codes_error show ?thesis by blast
  next
    case (Inr codes)
    show ?thesis
    proof (cases "correct_scrip_names codes [] wa")
      case p2: (Pair b wb)
      from assms Pair Inr p2 show ?thesis
        by (auto simp: resolve_scrips_def split: if_splits sum.splits dest: correct_scrip_names_error)
    qed
  qed
qed

lemma normalise_datetime_error: "normalise_datetime df = Inl e \<Longrightarrow> e = ValueError"
  by (induction df) (auto split: option.splits sum.splits)

lemma daily_security_error:
  "daily_security exchange exchange_segment time_period from_date to_date scrip_code scrip_name w
     = (Inl e, w1) \<Longrightarrow> \<not> invalid_request_error e"
  by (auto simp: daily_security_def historical_data_def Let_def
        split: if_splits option.splits sum.splits dest: normalise_datetime_error)

lemma daily_loop_error:
  "daily_loop exchange exchange_segment time_period from_date to_date m w = (Inl e, w1)
     \<Longrightarrow> \<not> invalid_request_error e"
proof (induction m arbitrary: w)
  case Nil
  then show ?case by simp
next
  case (Cons p ps)
  obtain c n where p: "p = (c, n)" by (cases p)
  obtain r wa where ds: "daily_security exchange exchange_segment time_period from_date to_date c n w = (r, wa)"
    by (cases "daily_security exchange exchange_segment time_period from_date to_date c n w")
  show ?case
  proof (cases r)
    case (Inl e')
    with Cons.prems p ds have "e' = e" by simp
    with ds Inl daily_security_error show ?thesis by blast
  next
    case (Inr u)
    with Cons.prems p ds have "daily_loop exchange exchange_segment time_period from_date to_date ps wa = (Inl e, w1)"
      by simp
    then show ?thesis by (rule Cons.IH)
  qed
qed

lemma chunk_loop_error:
  assumes "chunk_loop exchange exchange_segment scrip_code time_period scrip_name current_date
             end_date data_frames w = (Inl e, w1)"
  shows "\<not> invalid_request_error e"
  using chunk_loop_log[OF assms] by (auto simp: chunk_error_def)

lemma intraday_security_error:
  "intraday_security exchange exchange_segment time_period from_date to_date scrip_code scrip_name w
     = (Inl e, w1) \<Longrightarrow> \<not> invalid_request_error e"
proof -
  assume a: "intraday_security exchange exchange_segment time_period from_date to_date scrip_code scrip_name w
     = (Inl e, w1)"
  show ?thesis
  proof (cases "path_exists (file_name_of exchange exchange_segment time_period from_date to_date scrip_name) w")
    case True
    with a show ?thesis by (simp add: intraday_security_def)
  next
    case ne: False
    show ?thesis
    proof (cases "strptime_ymd from_date")
      case None
      with a ne show ?thesis by (auto simp: intraday_security_def)
    next
      case s: (Some start_date)
      show ?thesis
      proof (cases "strptime_ymd to_date")
        case None
        with a ne s show ?thesis by (auto simp: intraday_security_def)
      next
        case t: (Some end_date)
        obtain res wa where run: "chunk_loop exchange exchange_segment scrip_code time_period scrip_name
            start_date end_date [] w = (res, wa)"
          by (cases "chunk_loop exchange exchange_segment scrip_code time_period scrip_name
            start_date end_date [] w")
        show ?thesis
        proof (cases res)
          case (Inl e')
          with a ne s t run have "e' = e"
            by (simp add: intraday_security_def del: chunk_loop.simps)
          with run Inl chunk_loop_error show ?thesis by blast
        next
          case (Inr dfs)
          with a ne s t run show ?thesis
            by (auto simp: intraday_security_def simp del: chunk_loop.simps split: if_splits)
        qed
      qed
    qed
  qed
qed

lemma intraday_loop_error:
  "intraday_loop exchange exchange_segment time_period from_date to_date m w = (Inl e, w1)
     \<Longrightarrow> \<not> invalid_request_error e"
proof (induction m arbitrary: w)
  case Nil
  then show ?case by simp
next
  case (Cons p ps)
  obtain c n where p: "p = (c, n)" by (cases p)
  obtain r wa where ds: "intraday_security exchange exchange_segment time_period from_date to_date c n w = (r, wa)"
    by (cases "intraday_security exchange exchange_segment time_period from_date to_date c n w")
  show ?case
  proof (cases r)
    case (Inl e')
    with Cons.prems p ds have "e' = e" by simp
    with ds Inl intraday_security_error show ?thesis by blast
  next
    case (Inr u)
    with Cons.prems p ds have "intraday_loop exchange exchange_segment time_period from_date to_date ps wa = (Inl e, w1)"
      by simp
    then show ?thesis by (rule Cons.IH)
  qed
qed

text \<open>
  C8. With a connected client, a request passes the opening checks exactly when its
  granularity is one of the seven values, its exchange one of the four, its segment one of
  the five, and no list or string argument is empty. A request that is not of this form ends
  with one of the exceptions for a malformed request and leaves the world as it was: no call
  to the lookup store or to the market-data API has been logged. A request of this form never
  ends with such an exception.
\<close>

theorem request_validation:
  assumes conn: "client w \<noteq> None"
  shows "if valid_request exchange exchange_segment scrip_names time_period from_date to_date
         then check_arguments exchange exchange_segment scrip_names time_period from_date to_date w = Inr ()
            \<and> \<not> is_invalid_request (fst (get_historical_data exchange exchange_segment scrip_names
                                            time_period from_date to_date w))
         else (\<exists>e. invalid_request_error e
                 \<and> get_historical_data exchange exchange_segment scrip_names time_period
                      from_date to_date w = (Inl e, w))"
proof (cases "valid_request exchange exchange_segment scrip_names time_period from_date to_date")
  case False
  then obtain e where e: "check_arguments exchange exchange_segment scrip_names time_period from_date to_date w = Inl e"
    using check_arguments_valid[OF conn, of exchange exchange_segment scrip_names time_period from_date to_date]
    by (cases "check_arguments exchange exchange_segment scrip_names time_period from_date to_date w") auto
  have "invalid_request_error e" using check_arguments_error[OF conn e] .
  with e False show ?thesis by (auto simp: get_historical_data_def)
next
  case True
  then have ok: "check_arguments exchange exchange_segment scrip_names time_period from_date to_date w = Inr ()"
    using check_arguments_valid[OF conn] by simp
  obtain r w1 where rs: "resolve_scrips scrip_names w = (r, w1)"
    by (cases "resolve_scrips scrip_names w")
  have "\<not> is_invalid_request (fst (get_historical_data exchange exchange_segment scrip_names
                                            time_period from_date to_date w))"
  proof (cases r)
    case (Inl e)
    with ok rs resolve_scrips_error show ?thesis
      by (auto simp: get_historical_data_def)
  next
    case (Inr m)
    show ?thesis
    proof (cases "time_period = ''1d''")
      case d: True
      obtain r2 w2 where dl: "daily_loop exchange exchange_segment time_period from_date to_date m w1 = (r2, w2)"
        by (cases "daily_loop exchange exchange_segment time_period from_date to_date m w1")
      have "\<not> is_invalid_request r2"
        using dl daily_loop_error by (cases r2) auto
      with ok rs Inr d dl show ?thesis by (simp add: get_historical_data_def)
    next
      case nd: False
      have tp: "time_period \<in> set [''1m'', ''5m'', ''10m'', ''15m'', ''30m'', ''60m'']"
        using check_arguments_intraday[OF ok nd] .
      obtain r2 w2 where il: "intraday_loop exchange exchange_segment time_period from_date to_date m w1 = (r2, w2)"
        by (cases "intraday_loop exchange exchange_segment time_period from_date to_date m w1")
      have "\<not> is_invalid_request r2"
        using il intraday_loop_error by (cases r2) auto
      with ok rs Inr nd tp il show ?thesis
        by (simp add: get_historical_data_def get_historical_intraday_data_def)
    qed
  qed
  with True ok show ?thesis by simp
qed

theorem request_validation_witness:
  "(\<exists>e. invalid_request_error e
       \<and> get_historical_data ''N'' ''c'' [''GOLD''] ''2m'' ''2024-01-01'' ''2024-01-05'' example_world
           = (Inl e, example_world))
   \<and> (\<exists>e. invalid_request_error e
       \<and> get_historical_data ''N'' ''c'' [] ''1d'' ''2024-01-01'' ''2024-01-05'' example_world
           = (Inl e, example_world))
   \<and> check_arguments ''N'' ''c'' [''GOLD''] ''1d'' ''2024-01-01'' ''2024-01-05'' example_world = Inr ()
   \<and> \<not> is_invalid_request (fst (get_historical_data ''N'' ''c'' [''GOLD''] ''1d'' ''2024-01-01''
                                   ''2024-01-05'' example_world))"
proof -
  have c: "client example_world \<noteq> None"
    by (simp add: example_world_def)
  have v1: "\<not> valid_request ''N'' ''c'' [''GOLD''] ''2m'' ''2024-01-01'' ''2024-01-05''"
    by (simp add: valid_request_def)
  have v2: "\<not> valid_request ''N'' ''c'' [] ''1d'' ''2024-01-01'' ''2024-01-05''"
    by (simp add: valid_request_def)
  have v3: "valid_request ''N'' ''c'' [''GOLD''] ''1d'' ''2024-01-01'' ''2024-01-05''"
    by (simp add: valid_request_def)
  show ?thesis
    using request_validation[OF c, of "''N''" "''c''" "[''GOLD'']" "''2m''" "''2024-01-01''" "''2024-01-05''"]
          request_validation[OF c, of "''N''" "''c''" "[]" "''1d''" "''2024-01-01''" "''2024-01-05''"]
          request_validation[OF c, of "''N''" "''c''" "[''GOLD'']" "''1d''" "''2024-01-01''" "''2024-01-05''"]
          v1 v2 v3
    by simp
qed

end
